theory Spec2Isabelle
  imports Main "HOL-Library.Word" "HOL-Library.Log_Nat"
begin

unbundle bit_operations_syntax

section \<open>Machine data: bytes, words and IEEE-754 binary32\<close>

text \<open>
  The program stores every real quantity in a C++ \<^verbatim>\<open>float\<close> and copies it to and from
  the wire with \<^verbatim>\<open>memcpy\<close>. A float is therefore modelled by its 32-bit pattern
  (sign bit 31, biased exponent bits 30..23, fraction bits 22..0), and the comparison
  operators are the IEEE-754 ones, defined on that pattern.
\<close>

type_synonym byte = "8 word"
type_synonym f32 = "32 word"

subsection \<open>Byte order\<close>

text \<open>
  \<^verbatim>\<open>memcpy\<close> writes a multi-byte field in the byte order of the host. The order is a
  parameter of the codec; both ends of one round trip use the same one.
\<close>

datatype endian = LittleEndian | BigEndian

definition le_bytes32 :: "32 word \<Rightarrow> byte list" where
  "le_bytes32 w = [ucast w, ucast (drop_bit 8 w), ucast (drop_bit 16 w), ucast (drop_bit 24 w)]"

definition le_bytes16 :: "16 word \<Rightarrow> byte list" where
  "le_bytes16 w = [ucast w, ucast (drop_bit 8 w)]"

fun le_word32 :: "byte list \<Rightarrow> 32 word" where
  "le_word32 [] = 0"
| "le_word32 (b # bs) = ucast b OR push_bit 8 (le_word32 bs)"

fun le_word16 :: "byte list \<Rightarrow> 16 word" where
  "le_word16 [] = 0"
| "le_word16 (b # bs) = ucast b OR push_bit 8 (le_word16 bs)"

definition host_order :: "endian \<Rightarrow> byte list \<Rightarrow> byte list" where
  "host_order en bs = (case en of LittleEndian \<Rightarrow> bs | BigEndian \<Rightarrow> rev bs)"

definition bytes_of_u32 :: "endian \<Rightarrow> 32 word \<Rightarrow> byte list" where
  "bytes_of_u32 en w = host_order en (le_bytes32 w)"

definition u32_of_bytes :: "endian \<Rightarrow> byte list \<Rightarrow> 32 word" where
  "u32_of_bytes en bs = le_word32 (host_order en bs)"

definition bytes_of_u16 :: "endian \<Rightarrow> 16 word \<Rightarrow> byte list" where
  "bytes_of_u16 en w = host_order en (le_bytes16 w)"

definition u16_of_bytes :: "endian \<Rightarrow> byte list \<Rightarrow> 16 word" where
  "u16_of_bytes en bs = le_word16 (host_order en bs)"

text \<open>\<^verbatim>\<open>memcpy(dst, buffer + offset, n)\<close>: the \<open>n\<close> bytes of the buffer from \<open>offset\<close> on.\<close>

definition mem_read :: "byte list \<Rightarrow> nat \<Rightarrow> nat \<Rightarrow> byte list" where
  "mem_read buffer offset n = take n (drop offset buffer)"

subsection \<open>IEEE-754 binary32 classification and comparison\<close>

definition f_abs_bits :: "f32 \<Rightarrow> nat" where
  "f_abs_bits w = unat w mod 2 ^ 31"

definition f_negative :: "f32 \<Rightarrow> bool" where
  "f_negative w = (2 ^ 31 \<le> unat w)"

definition f_exponent :: "f32 \<Rightarrow> nat" where
  "f_exponent w = f_abs_bits w div 2 ^ 23"

definition f_fraction :: "f32 \<Rightarrow> nat" where
  "f_fraction w = f_abs_bits w mod 2 ^ 23"

definition is_nan :: "f32 \<Rightarrow> bool" where
  "is_nan w = (f_exponent w = 255 \<and> f_fraction w \<noteq> 0)"

definition is_inf :: "f32 \<Rightarrow> bool" where
  "is_inf w = (f_exponent w = 255 \<and> f_fraction w = 0)"

text \<open>
  The magnitude of a float that is not a NaN, as a multiple of \<open>2\<^sup>-\<^sup>1\<^sup>4\<^sup>9\<close> (the smallest
  subnormal): \<open>fraction\<close> for a subnormal, \<open>(2\<^sup>2\<^sup>3 + fraction) * 2\<^sup>e\<^sup>-\<^sup>1\<close> for a normal
  number of biased exponent \<open>e\<close>. The same formula sends an infinity to \<open>2\<^sup>2\<^sup>7\<^sup>7\<close>, above
  every finite magnitude, so the order of the scaled values is the IEEE order.
\<close>

definition f_mag :: "f32 \<Rightarrow> nat" where
  "f_mag w = (if f_exponent w = 0 then f_fraction w
              else (2 ^ 23 + f_fraction w) * 2 ^ (f_exponent w - 1))"

definition f_val :: "f32 \<Rightarrow> int" where
  "f_val w = (if f_negative w then - int (f_mag w) else int (f_mag w))"

definition f_lt :: "f32 \<Rightarrow> f32 \<Rightarrow> bool" where
  "f_lt a b = (\<not> is_nan a \<and> \<not> is_nan b \<and> f_val a < f_val b)"

definition f_le :: "f32 \<Rightarrow> f32 \<Rightarrow> bool" where
  "f_le a b = (\<not> is_nan a \<and> \<not> is_nan b \<and> f_val a \<le> f_val b)"

definition f_gt :: "f32 \<Rightarrow> f32 \<Rightarrow> bool" where
  "f_gt a b = f_lt b a"

definition f_ge :: "f32 \<Rightarrow> f32 \<Rightarrow> bool" where
  "f_ge a b = f_le b a"

definition f_eq :: "f32 \<Rightarrow> f32 \<Rightarrow> bool" where
  "f_eq a b = (\<not> is_nan a \<and> \<not> is_nan b \<and> f_val a = f_val b)"

subsection \<open>IEEE-754 binary32 arithmetic\<close>

text \<open>
  Each of \<^verbatim>\<open>+\<close>, \<^verbatim>\<open>-\<close>, \<^verbatim>\<open>*\<close>, \<^verbatim>\<open>/\<close> on two floats is the exact result rounded once to
  the nearest float, ties to even (the default rounding mode), computed here on the
  scaled magnitudes. \<open>round_nearest_even s N\<close> rounds the value \<open>N / 2\<^sup>s\<close>, in units
  of \<open>2\<^sup>-\<^sup>1\<^sup>4\<^sup>9\<close>: with \<open>e\<close> such that \<open>N div 2\<^sup>e\<close> keeps at most 24 bits and the
  result is a whole number of units, the remainder decides the direction. A result of
  \<open>2\<^sup>2\<^sup>7\<^sup>7\<close> or more is an overflow and encodes as an infinity. The payload of a NaN
  result is not modelled: every NaN result is the default quiet NaN.
\<close>

definition round_nearest_even :: "nat \<Rightarrow> nat \<Rightarrow> nat" where
  "round_nearest_even s N =
     (let e = max s (floorlog 2 N - 24);
          q = N div 2 ^ e;
          r = N mod 2 ^ e;
          q' = (if 2 * r < 2 ^ e then q
                else if 2 ^ e < 2 * r then q + 1
                else if even q then q else q + 1)
      in q' * 2 ^ (e - s))"

text \<open>
  \<open>encode_bits M\<close> are the 31 bits below the sign of the float of magnitude \<open>M\<close>:
  the exponent field above the 23 fraction bits, where the leading bit of a normal
  number carries into the exponent field.
\<close>

definition encode_bits :: "nat \<Rightarrow> nat" where
  "encode_bits M =
     (if 2 ^ 277 \<le> M then 2139095040
      else (floorlog 2 M - 24) * 2 ^ 23 + M div 2 ^ (floorlog 2 M - 24))"

definition f_encode :: "bool \<Rightarrow> nat \<Rightarrow> f32" where
  "f_encode neg M = of_nat ((if neg then 2 ^ 31 else 0) + encode_bits M)"

definition f_nan :: f32 where
  "f_nan = 0x7FC00000"

text \<open>Unary minus flips the sign bit; \<^verbatim>\<open>std::abs\<close> clears it.\<close>

definition f_neg :: "f32 \<Rightarrow> f32" where
  "f_neg a = a XOR 0x80000000"

definition f_abs :: "f32 \<Rightarrow> f32" where
  "f_abs a = a AND 0x7FFFFFFF"

definition f_add :: "f32 \<Rightarrow> f32 \<Rightarrow> f32" where
  "f_add a b =
     (if is_nan a \<or> is_nan b then f_nan
      else if is_inf a \<and> is_inf b then (if f_negative a = f_negative b then a else f_nan)
      else if is_inf a then a
      else if is_inf b then b
      else let v = f_val a + f_val b in
           if v = 0 then (if f_negative a \<and> f_negative b then 0x80000000 else 0)
           else f_encode (v < 0) (round_nearest_even 0 (nat \<bar>v\<bar>)))"

definition f_sub :: "f32 \<Rightarrow> f32 \<Rightarrow> f32" where
  "f_sub a b = f_add a (f_neg b)"

definition f_mul :: "f32 \<Rightarrow> f32 \<Rightarrow> f32" where
  "f_mul a b =
     (if is_nan a \<or> is_nan b then f_nan
      else if (is_inf a \<and> f_mag b = 0) \<or> (f_mag a = 0 \<and> is_inf b) then f_nan
      else if is_inf a \<or> is_inf b then f_encode (f_negative a \<noteq> f_negative b) (2 ^ 277)
      else f_encode (f_negative a \<noteq> f_negative b) (round_nearest_even 149 (f_mag a * f_mag b)))"

text \<open>
  Division and square root round a value that is not a whole number of units: the
  quotient (the root) is computed with two more bits, the lower of them a sticky bit
  that is set when the result is inexact, so that the rounding sees on which side of
  every tie the exact value lies.
\<close>

definition f_div :: "f32 \<Rightarrow> f32 \<Rightarrow> f32" where
  "f_div a b =
     (if is_nan a \<or> is_nan b then f_nan
      else if (is_inf a \<and> is_inf b) \<or> (f_mag a = 0 \<and> f_mag b = 0) then f_nan
      else if is_inf a \<or> f_mag b = 0 then f_encode (f_negative a \<noteq> f_negative b) (2 ^ 277)
      else if is_inf b then f_encode (f_negative a \<noteq> f_negative b) 0
      else let n = f_mag a * 2 ^ 150;
               sticky = (if n mod f_mag b = 0 then 0 else 1)
           in f_encode (f_negative a \<noteq> f_negative b)
                (round_nearest_even 2 (2 * (n div f_mag b) + sticky)))"

fun isqrt_bits :: "nat \<Rightarrow> nat \<Rightarrow> nat \<Rightarrow> nat" where
  "isqrt_bits 0 n r = r"
| "isqrt_bits (Suc k) n r = isqrt_bits k n (if (r + 2 ^ k) * (r + 2 ^ k) \<le> n then r + 2 ^ k else r)"

definition isqrt :: "nat \<Rightarrow> nat" where
  "isqrt n = isqrt_bits (floorlog 2 n) n 0"

definition f_sqrt :: "f32 \<Rightarrow> f32" where
  "f_sqrt a =
     (if is_nan a then f_nan
      else if f_mag a = 0 then a
      else if f_negative a then f_nan
      else if is_inf a then a
      else let n = f_mag a * 2 ^ 151;
               root = isqrt n;
               sticky = (if root * root = n then 0 else 1)
           in f_encode False (round_nearest_even 2 (2 * root + sticky)))"

text \<open>\<^verbatim>\<open>std::clamp(v, lo, hi)\<close>: \<^verbatim>\<open>(v < lo) ? lo : (hi < v) ? hi : v\<close>.\<close>

definition std_clamp :: "f32 \<Rightarrow> f32 \<Rightarrow> f32 \<Rightarrow> f32" where
  "std_clamp v lo hi = (if f_lt v lo then lo else if f_lt hi v then hi else v)"

section \<open>InputState (input\_state.hpp)\<close>

record InputState =
  moveX :: f32
  moveY :: f32
  throwProjectile :: bool
  frameNumber :: "32 word"

text \<open>A freshly constructed \<^verbatim>\<open>InputState\<close>: the default member initialisers.\<close>

definition InputState_default :: InputState where
  "InputState_default = \<lparr> moveX = 0, moveY = 0, throwProjectile = False, frameNumber = 0 \<rparr>"

text \<open>
  \<^verbatim>\<open>InputState::Serialize\<close>. The result is the content of \<^verbatim>\<open>buffer[0 .. outSize)\<close>:
  the fields are written at increasing offsets, each right after the one before.
\<close>

definition InputState_Serialize :: "endian \<Rightarrow> InputState \<Rightarrow> byte list" where
  "InputState_Serialize en i =
     bytes_of_u32 en (moveX i)
     @ bytes_of_u32 en (moveY i)
     @ [(if throwProjectile i then 0 OR 1 else 0)]
     @ bytes_of_u32 en (InputState.frameNumber i)"

text \<open>
  \<^verbatim>\<open>InputState::Deserialize(buffer, size)\<close> on the object \<open>this\<close>, with \<open>sz\<close> for the
  parameter \<^verbatim>\<open>size\<close>. Each of the four
  blocks is guarded by its own test on the current offset; a block that is skipped
  leaves both its field and the offset as they are.
\<close>

definition InputState_Deserialize :: "endian \<Rightarrow> byte list \<Rightarrow> nat \<Rightarrow> InputState \<Rightarrow> InputState" where
  "InputState_Deserialize en buffer sz this =
     (let offset = 0;
          (this, offset) =
             (if offset + 4 \<le> sz
              then (this\<lparr>moveX := u32_of_bytes en (mem_read buffer offset 4)\<rparr>, offset + 4)
              else (this, offset));
          (this, offset) =
             (if offset + 4 \<le> sz
              then (this\<lparr>moveY := u32_of_bytes en (mem_read buffer offset 4)\<rparr>, offset + 4)
              else (this, offset));
          (this, offset) =
             (if offset + 1 \<le> sz
              then (let buttons = hd (mem_read buffer offset 1)
                    in (this\<lparr>throwProjectile := (buttons AND 1 \<noteq> 0)\<rparr>, offset + 1))
              else (this, offset));
          (this, offset) =
             (if offset + 4 \<le> sz
              then (this\<lparr>InputState.frameNumber := u32_of_bytes en (mem_read buffer offset 4)\<rparr>,
                    offset + 4)
              else (this, offset))
      in this)"

text \<open>\<^verbatim>\<open>InputState::operator==\<close>: the two floats are compared with the float \<^verbatim>\<open>==\<close>.\<close>

definition InputState_eq :: "InputState \<Rightarrow> InputState \<Rightarrow> bool" where
  "InputState_eq a b =
     (f_eq (moveX a) (moveX b) \<and> f_eq (moveY a) (moveY b)
      \<and> throwProjectile a = throwProjectile b
      \<and> InputState.frameNumber a = InputState.frameNumber b)"

section \<open>The state model (game\_state.hpp)\<close>

text \<open>\<^verbatim>\<open>glm::vec3\<close>: three floats \<^verbatim>\<open>x\<close>, \<^verbatim>\<open>y\<close>, \<^verbatim>\<open>z\<close>, stored in that order.\<close>

record vec3 =
  vec_x :: f32
  vec_y :: f32
  vec_z :: f32

record ProjectileState =
  position :: vec3
  velocity :: vec3
  ownerID :: "8 word"
  damage :: f32
  active :: bool

record PlayerState =
  position :: vec3
  velocity :: vec3
  facingAngle :: f32
  hp :: f32
  projectileCooldown :: f32
  roundWins :: "8 word"
  alive :: bool

text \<open>
  \<^verbatim>\<open>PlayerState players[2]\<close> is a pair; \<open>player_at ps i\<close> is \<^verbatim>\<open>players[i]\<close> and
  \<open>set_player ps i p\<close> the array after \<^verbatim>\<open>players[i] = p\<close>, for the indices 0 and 1 the
  program uses.
\<close>

record GameState =
  players :: "PlayerState \<times> PlayerState"
  projectiles :: "ProjectileState list"
  frameNumber :: "32 word"
  roundTimer :: f32
  currentRound :: "8 word"

definition player_at :: "PlayerState \<times> PlayerState \<Rightarrow> nat \<Rightarrow> PlayerState" where
  "player_at ps i = (if i = 0 then fst ps else snd ps)"

definition set_player :: "PlayerState \<times> PlayerState \<Rightarrow> nat \<Rightarrow> PlayerState \<Rightarrow> PlayerState \<times> PlayerState" where
  "set_player ps i p = (if i = 0 then (p, snd ps) else (fst ps, p))"

subsection \<open>Field codecs\<close>

definition bytes_of_vec3 :: "endian \<Rightarrow> vec3 \<Rightarrow> byte list" where
  "bytes_of_vec3 en v = bytes_of_u32 en (vec_x v) @ bytes_of_u32 en (vec_y v) @ bytes_of_u32 en (vec_z v)"

definition vec3_of_bytes :: "endian \<Rightarrow> byte list \<Rightarrow> vec3" where
  "vec3_of_bytes en bs =
     \<lparr> vec_x = u32_of_bytes en (mem_read bs 0 4),
       vec_y = u32_of_bytes en (mem_read bs 4 4),
       vec_z = u32_of_bytes en (mem_read bs 8 4) \<rparr>"

text \<open>
  A \<^verbatim>\<open>bool\<close> is one byte, 1 for true and 0 for false; reading one back, any non-zero
  byte counts as true.
\<close>

definition bytes_of_bool :: "bool \<Rightarrow> byte list" where
  "bytes_of_bool b = [if b then 1 else 0]"

definition bool_of_bytes :: "byte list \<Rightarrow> bool" where
  "bool_of_bytes bs = (hd bs \<noteq> 0)"

subsection \<open>ProjectileState and PlayerState codecs\<close>

text \<open>
  The \<^verbatim>\<open>Serialize\<close> members write at \<^verbatim>\<open>buffer + offset\<close> and advance the offset; the
  model returns the bytes written, in order, and the caller appends them. The
  \<^verbatim>\<open>Deserialize\<close> members read at the offset and return the advanced offset.
\<close>

definition ProjectileState_Serialize :: "endian \<Rightarrow> ProjectileState \<Rightarrow> byte list" where
  "ProjectileState_Serialize en p =
     bytes_of_vec3 en (ProjectileState.position p)
     @ bytes_of_vec3 en (ProjectileState.velocity p)
     @ [ownerID p]
     @ bytes_of_u32 en (damage p)
     @ bytes_of_bool (active p)"

definition ProjectileState_Deserialize ::
  "endian \<Rightarrow> byte list \<Rightarrow> nat \<Rightarrow> ProjectileState \<Rightarrow> ProjectileState \<times> nat" where
  "ProjectileState_Deserialize en buffer offset this =
     (let this = this\<lparr>ProjectileState.position := vec3_of_bytes en (mem_read buffer offset 12)\<rparr>;
          offset = offset + 12;
          this = this\<lparr>ProjectileState.velocity := vec3_of_bytes en (mem_read buffer offset 12)\<rparr>;
          offset = offset + 12;
          this = this\<lparr>ownerID := hd (mem_read buffer offset 1)\<rparr>;
          offset = offset + 1;
          this = this\<lparr>damage := u32_of_bytes en (mem_read buffer offset 4)\<rparr>;
          offset = offset + 4;
          this = this\<lparr>active := bool_of_bytes (mem_read buffer offset 1)\<rparr>;
          offset = offset + 1
      in (this, offset))"

definition PlayerState_Serialize :: "endian \<Rightarrow> PlayerState \<Rightarrow> byte list" where
  "PlayerState_Serialize en p =
     bytes_of_vec3 en (PlayerState.position p)
     @ bytes_of_vec3 en (PlayerState.velocity p)
     @ bytes_of_u32 en (facingAngle p)
     @ bytes_of_u32 en (hp p)
     @ bytes_of_u32 en (projectileCooldown p)
     @ [roundWins p]
     @ bytes_of_bool (alive p)"

definition PlayerState_Deserialize ::
  "endian \<Rightarrow> byte list \<Rightarrow> nat \<Rightarrow> PlayerState \<Rightarrow> PlayerState \<times> nat" where
  "PlayerState_Deserialize en buffer offset this =
     (let this = this\<lparr>PlayerState.position := vec3_of_bytes en (mem_read buffer offset 12)\<rparr>;
          offset = offset + 12;
          this = this\<lparr>PlayerState.velocity := vec3_of_bytes en (mem_read buffer offset 12)\<rparr>;
          offset = offset + 12;
          this = this\<lparr>facingAngle := u32_of_bytes en (mem_read buffer offset 4)\<rparr>;
          offset = offset + 4;
          this = this\<lparr>hp := u32_of_bytes en (mem_read buffer offset 4)\<rparr>;
          offset = offset + 4;
          this = this\<lparr>projectileCooldown := u32_of_bytes en (mem_read buffer offset 4)\<rparr>;
          offset = offset + 4;
          this = this\<lparr>roundWins := hd (mem_read buffer offset 1)\<rparr>;
          offset = offset + 1;
          this = this\<lparr>alive := bool_of_bytes (mem_read buffer offset 1)\<rparr>;
          offset = offset + 1
      in (this, offset))"

subsection \<open>GameState codec\<close>

text \<open>
  A default-constructed \<^verbatim>\<open>ProjectileState\<close> (damage \<^verbatim>\<open>PROJECTILE_DAMAGE = 10.0f\<close>), the
  object each round of the decoding loop starts from.
\<close>

definition PROJECTILE_DAMAGE :: f32 where
  "PROJECTILE_DAMAGE = 0x41200000"

definition vec3_zero :: vec3 where
  "vec3_zero = \<lparr> vec_x = 0, vec_y = 0, vec_z = 0 \<rparr>"

definition ProjectileState_default :: ProjectileState where
  "ProjectileState_default =
     \<lparr> ProjectileState.position = vec3_zero, ProjectileState.velocity = vec3_zero, ownerID = 0,
       damage = PROJECTILE_DAMAGE, active = True \<rparr>"

text \<open>
  \<^verbatim>\<open>GameState::Serialize\<close>: the count is \<^verbatim>\<open>static_cast<uint16_t>(projectiles.size())\<close>,
  the size modulo \<open>2\<^sup>1\<^sup>6\<close>, and every projectile of the vector is written whatever
  the count says.
\<close>

definition GameState_Serialize :: "endian \<Rightarrow> GameState \<Rightarrow> byte list" where
  "GameState_Serialize en s =
     PlayerState_Serialize en (player_at (players s) 0)
     @ PlayerState_Serialize en (player_at (players s) 1)
     @ bytes_of_u16 en (of_nat (length (projectiles s)))
     @ concat (map (ProjectileState_Serialize en) (projectiles s))
     @ bytes_of_u32 en (frameNumber s)
     @ bytes_of_u32 en (roundTimer s)
     @ [currentRound s]"

text \<open>
  The loop \<^verbatim>\<open>for (uint16_t i = 0; i < projCount; i++)\<close> of \<^verbatim>\<open>GameState::Deserialize\<close>:
  \<open>n\<close> rounds are left, each decodes one projectile into a fresh object and pushes it.
\<close>

fun Deserialize_projectiles ::
  "endian \<Rightarrow> byte list \<Rightarrow> nat \<Rightarrow> nat \<Rightarrow> ProjectileState list \<times> nat" where
  "Deserialize_projectiles en buffer offset 0 = ([], offset)"
| "Deserialize_projectiles en buffer offset (Suc n) =
     (let (proj, offset) = ProjectileState_Deserialize en buffer offset ProjectileState_default;
          (rest, offset) = Deserialize_projectiles en buffer offset n
      in (proj # rest, offset))"

text \<open>
  \<^verbatim>\<open>GameState::Deserialize(buffer, size)\<close> on the object \<open>this\<close>. The parameter
  \<^verbatim>\<open>size\<close> (here \<open>sz\<close>) is never looked at: the source reads as far as the projectile
  count sends it.
\<close>

definition GameState_Deserialize :: "endian \<Rightarrow> byte list \<Rightarrow> nat \<Rightarrow> GameState \<Rightarrow> GameState" where
  "GameState_Deserialize en buffer sz this =
     (let offset = 0;
          (p0, offset) = PlayerState_Deserialize en buffer offset (player_at (players this) 0);
          this = this\<lparr>players := set_player (players this) 0 p0\<rparr>;
          (p1, offset) = PlayerState_Deserialize en buffer offset (player_at (players this) 1);
          this = this\<lparr>players := set_player (players this) 1 p1\<rparr>;
          projCount = u16_of_bytes en (mem_read buffer offset 2);
          offset = offset + 2;
          (projs, offset) = Deserialize_projectiles en buffer offset (unat projCount);
          this = this\<lparr>projectiles := projs\<rparr>;
          this = this\<lparr>frameNumber := u32_of_bytes en (mem_read buffer offset 4)\<rparr>;
          offset = offset + 4;
          this = this\<lparr>roundTimer := u32_of_bytes en (mem_read buffer offset 4)\<rparr>;
          offset = offset + 4;
          this = this\<lparr>currentRound := hd (mem_read buffer offset 1)\<rparr>
      in this)"

subsection \<open>Constants, construction and reset\<close>

definition STARTING_HP :: f32 where
  "STARTING_HP = 0x42C80000"  \<comment> \<open>\<^verbatim>\<open>100.0f\<close>\<close>

definition PROJECTILE_SPEED :: f32 where
  "PROJECTILE_SPEED = 0x41A00000"  \<comment> \<open>\<^verbatim>\<open>20.0f\<close>\<close>

definition PROJECTILE_COOLDOWN :: f32 where
  "PROJECTILE_COOLDOWN = 0x3F000000"  \<comment> \<open>\<^verbatim>\<open>0.5f\<close>\<close>

definition PLAYER_SPEED :: f32 where
  "PLAYER_SPEED = 0x40A00000"  \<comment> \<open>\<^verbatim>\<open>5.0f\<close>\<close>

definition ROUND_TIME :: f32 where
  "ROUND_TIME = 0x42C60000"  \<comment> \<open>\<^verbatim>\<open>99.0f\<close>\<close>

definition PlayerState_default :: PlayerState where
  "PlayerState_default =
     \<lparr> PlayerState.position = vec3_zero, PlayerState.velocity = vec3_zero, facingAngle = 0,
       hp = STARTING_HP, projectileCooldown = 0, roundWins = 0, alive = True \<rparr>"

definition GameState_default :: GameState where
  "GameState_default =
     \<lparr> players = (PlayerState_default, PlayerState_default), projectiles = [],
       frameNumber = 0, roundTimer = ROUND_TIME, currentRound = 1 \<rparr>"

text \<open>One round of the loop of \<^verbatim>\<open>GameState::ResetRound\<close>, for \<^verbatim>\<open>players[i]\<close>.\<close>

definition ResetRound_player :: "nat \<Rightarrow> PlayerState \<Rightarrow> PlayerState" where
  "ResetRound_player i p =
     p\<lparr> PlayerState.position :=
          (if i = 0 then \<lparr> vec_x = 0xC0A00000, vec_y = 0, vec_z = 0 \<rparr>
           else \<lparr> vec_x = 0x40A00000, vec_y = 0, vec_z = 0 \<rparr>),
        PlayerState.velocity := vec3_zero,
        facingAngle := (if i = 0 then 0 else 0x43340000),
        hp := STARTING_HP,
        projectileCooldown := 0,
        alive := True \<rparr>"

definition ResetRound :: "GameState \<Rightarrow> GameState" where
  "ResetRound s =
     s\<lparr> players := (ResetRound_player 0 (player_at (players s) 0),
                     ResetRound_player 1 (player_at (players s) 1)),
        projectiles := [],
        roundTimer := ROUND_TIME \<rparr>"

definition ResetMatch :: "GameState \<Rightarrow> GameState" where
  "ResetMatch s =
     (let s = s\<lparr> players := ((player_at (players s) 0)\<lparr>roundWins := 0\<rparr>,
                              (player_at (players s) 1)\<lparr>roundWins := 0\<rparr>) \<rparr>;
          s = s\<lparr> currentRound := 1 \<rparr>;
          s = ResetRound s
      in s\<lparr> frameNumber := 0 \<rparr>)"

section \<open>The simulation engine (game\_simulation.hpp)\<close>

subsection \<open>What the engine takes from glm and the C library\<close>

text \<open>
  \<^verbatim>\<open>glm::length\<close>, \<^verbatim>\<open>glm::normalize\<close>, \<^verbatim>\<open>glm::degrees\<close>, \<^verbatim>\<open>glm::radians\<close>, \<^verbatim>\<open>std::atan2\<close>,
  \<^verbatim>\<open>std::sin\<close> and \<^verbatim>\<open>std::cos\<close> are not part of the repository, and the bits they
  return depend on the library and the build. They are parameters of the engine: one
  \<open>mathlib\<close> stands for one platform, on which each of them is a function of its
  arguments.
\<close>

record mathlib =
  glm_length :: "vec3 \<Rightarrow> f32"
  glm_normalize :: "vec3 \<Rightarrow> vec3"
  glm_degrees :: "f32 \<Rightarrow> f32"
  glm_radians :: "f32 \<Rightarrow> f32"
  std_atan2 :: "f32 \<Rightarrow> f32 \<Rightarrow> f32"
  std_sin :: "f32 \<Rightarrow> f32"
  std_cos :: "f32 \<Rightarrow> f32"

text \<open>The operators of \<^verbatim>\<open>glm::vec3\<close> the engine uses work component by component.\<close>

definition vec3_add :: "vec3 \<Rightarrow> vec3 \<Rightarrow> vec3" where
  "vec3_add a b = \<lparr> vec_x = f_add (vec_x a) (vec_x b), vec_y = f_add (vec_y a) (vec_y b),
                    vec_z = f_add (vec_z a) (vec_z b) \<rparr>"

definition vec3_sub :: "vec3 \<Rightarrow> vec3 \<Rightarrow> vec3" where
  "vec3_sub a b = \<lparr> vec_x = f_sub (vec_x a) (vec_x b), vec_y = f_sub (vec_y a) (vec_y b),
                    vec_z = f_sub (vec_z a) (vec_z b) \<rparr>"

definition vec3_scale :: "vec3 \<Rightarrow> f32 \<Rightarrow> vec3" where
  "vec3_scale v k = \<lparr> vec_x = f_mul (vec_x v) k, vec_y = f_mul (vec_y v) k,
                      vec_z = f_mul (vec_z v) k \<rparr>"

subsection \<open>Engine constants\<close>

definition FIXED_DT :: f32 where
  "FIXED_DT = f_div 0x3F800000 0x42700000"  \<comment> \<open>\<^verbatim>\<open>1.0f / 60.0f\<close>\<close>

definition ARENA_HALF_SIZE :: f32 where
  "ARENA_HALF_SIZE = 0x41A00000"  \<comment> \<open>\<^verbatim>\<open>20.0f\<close>\<close>

definition PROJECTILE_RADIUS :: f32 where
  "PROJECTILE_RADIUS = 0x3F000000"  \<comment> \<open>\<^verbatim>\<open>0.5f\<close>\<close>

definition PLAYER_RADIUS :: f32 where
  "PLAYER_RADIUS = 0x3F800000"  \<comment> \<open>\<^verbatim>\<open>1.0f\<close>\<close>

subsection \<open>The engine object and its member functions\<close>

text \<open>
  The one data member of \<^verbatim>\<open>GameSimulation\<close> is \<^verbatim>\<open>bool prevThrowPressed[2]\<close>. The member
  functions are not \<^verbatim>\<open>const\<close>: each takes the engine object \<open>this\<close> and returns it
  next to its result, so that what they do to the object is part of the model.
\<close>

record GameSimulation =
  prevThrowPressed :: "bool \<times> bool"

definition UpdatePlayer ::
  "mathlib \<Rightarrow> GameSimulation \<Rightarrow> PlayerState \<Rightarrow> InputState \<Rightarrow> nat \<Rightarrow> GameSimulation \<times> PlayerState" where
  "UpdatePlayer m this player input playerIndex =
     (if \<not> alive player then (this, player)
      else
        let moveDir = \<lparr> vec_x = moveX input, vec_y = 0, vec_z = moveY input \<rparr>;
            moveLen = glm_length m moveDir;
            player =
              (if f_gt moveLen 0x3C23D70A
               then
                 let moveDir = vec3_scale (vec3_scale (glm_normalize m moveDir) PLAYER_SPEED) FIXED_DT;
                     player = player\<lparr>PlayerState.position := vec3_add (PlayerState.position player) moveDir\<rparr>
                 in player\<lparr>facingAngle :=
                      glm_degrees m (std_atan2 m (moveX input) (f_neg (moveY input)))\<rparr>
               else player);
            player = player\<lparr>PlayerState.position := (PlayerState.position player)
                       \<lparr>vec_x := std_clamp (vec_x (PlayerState.position player))
                                   (f_neg ARENA_HALF_SIZE) ARENA_HALF_SIZE\<rparr>\<rparr>;
            player = player\<lparr>PlayerState.position := (PlayerState.position player)
                       \<lparr>vec_z := std_clamp (vec_z (PlayerState.position player))
                                   (f_neg ARENA_HALF_SIZE) ARENA_HALF_SIZE\<rparr>\<rparr>;
            player =
              (if f_gt (projectileCooldown player) 0
               then
                 let player = player\<lparr>projectileCooldown := f_sub (projectileCooldown player) FIXED_DT\<rparr>
                 in if f_lt (projectileCooldown player) 0
                    then player\<lparr>projectileCooldown := 0\<rparr> else player
               else player)
        in (this, player))"

text \<open>
  \<^verbatim>\<open>UpdateProjectiles\<close>: the first loop of the source has an empty body; the second moves
  the active projectiles and deactivates those beyond the arena bound plus \<^verbatim>\<open>5.0f\<close>;
  the erase-remove keeps the active ones.
\<close>

definition move_projectile :: "ProjectileState \<Rightarrow> ProjectileState" where
  "move_projectile proj =
     (if \<not> active proj then proj
      else
        let proj = proj\<lparr>ProjectileState.position :=
                     vec3_add (ProjectileState.position proj)
                       (vec3_scale (ProjectileState.velocity proj) FIXED_DT)\<rparr>
        in if f_gt (f_abs (vec_x (ProjectileState.position proj))) (f_add ARENA_HALF_SIZE 0x40A00000)
              \<or> f_gt (f_abs (vec_z (ProjectileState.position proj))) (f_add ARENA_HALF_SIZE 0x40A00000)
           then proj\<lparr>active := False\<rparr> else proj)"

definition UpdateProjectiles :: "GameSimulation \<Rightarrow> GameState \<Rightarrow> GameSimulation \<times> GameState" where
  "UpdateProjectiles this state =
     (let state = state\<lparr>projectiles := map move_projectile (projectiles state)\<rparr>;
          state = state\<lparr>projectiles := filter active (projectiles state)\<rparr>
      in (this, state))"

text \<open>
  The body of the inner loop of \<^verbatim>\<open>CheckCollisions\<close> for player \<open>i\<close>: the players and
  the projectile after it, and whether it left the loop with \<^verbatim>\<open>break\<close>.
\<close>

definition collide_with ::
  "mathlib \<Rightarrow> PlayerState \<times> PlayerState \<Rightarrow> ProjectileState \<Rightarrow> nat
    \<Rightarrow> (PlayerState \<times> PlayerState) \<times> ProjectileState \<times> bool" where
  "collide_with m ps proj i =
     (if unat (ownerID proj) = i then (ps, proj, False)
      else if \<not> alive (player_at ps i) then (ps, proj, False)
      else
        let diff = vec3_sub (ProjectileState.position proj) (PlayerState.position (player_at ps i));
            dist = glm_length m diff
        in if f_lt dist (f_add PROJECTILE_RADIUS PLAYER_RADIUS)
           then
             let p = player_at ps i;
                 p = p\<lparr>hp := f_sub (hp p) (damage proj)\<rparr>;
                 proj = proj\<lparr>active := False\<rparr>;
                 p = (if f_le (hp p) 0 then p\<lparr>hp := 0, alive := False\<rparr> else p)
             in (set_player ps i p, proj, True)
           else (ps, proj, False))"

definition collide_projectile ::
  "mathlib \<Rightarrow> PlayerState \<times> PlayerState \<Rightarrow> ProjectileState
    \<Rightarrow> (PlayerState \<times> PlayerState) \<times> ProjectileState" where
  "collide_projectile m ps proj =
     (if \<not> active proj then (ps, proj)
      else
        let (ps, proj, break) = collide_with m ps proj 0
        in if break then (ps, proj)
           else let (ps, proj, break) = collide_with m ps proj 1 in (ps, proj))"

fun collide_all ::
  "mathlib \<Rightarrow> PlayerState \<times> PlayerState \<Rightarrow> ProjectileState list
    \<Rightarrow> (PlayerState \<times> PlayerState) \<times> ProjectileState list" where
  "collide_all m ps [] = (ps, [])"
| "collide_all m ps (proj # rest) =
     (let (ps, proj) = collide_projectile m ps proj;
          (ps, rest) = collide_all m ps rest
      in (ps, proj # rest))"

definition CheckCollisions :: "mathlib \<Rightarrow> GameSimulation \<Rightarrow> GameState \<Rightarrow> GameSimulation \<times> GameState" where
  "CheckCollisions m this state =
     (let (ps, projs) = collide_all m (players state) (projectiles state)
      in (this, state\<lparr>players := ps, projectiles := projs\<rparr>))"

definition CheckWinConditions :: "GameSimulation \<Rightarrow> GameState \<Rightarrow> GameSimulation \<times> GameState" where
  "CheckWinConditions this state =
     (let deadPlayer = (if \<not> alive (player_at (players state) 0) then 0
                        else if \<not> alive (player_at (players state) 1) then 1
                        else - 1 :: int);
          timeout = f_le (roundTimer state) 0
      in if 0 \<le> deadPlayer
         then
           let winner = nat (1 - deadPlayer);
               w = player_at (players state) winner
           in (this, state\<lparr>players := set_player (players state) winner (w\<lparr>roundWins := roundWins w + 1\<rparr>)\<rparr>)
         else if timeout
         then
           if f_gt (hp (player_at (players state) 0)) (hp (player_at (players state) 1))
           then let w = player_at (players state) 0
                in (this, state\<lparr>players := set_player (players state) 0 (w\<lparr>roundWins := roundWins w + 1\<rparr>)\<rparr>)
           else if f_gt (hp (player_at (players state) 1)) (hp (player_at (players state) 0))
           then let w = player_at (players state) 1
                in (this, state\<lparr>players := set_player (players state) 1 (w\<lparr>roundWins := roundWins w + 1\<rparr>)\<rparr>)
           else (this, state)
         else (this, state))"

definition Update ::
  "mathlib \<Rightarrow> GameSimulation \<Rightarrow> GameState \<Rightarrow> InputState \<Rightarrow> InputState \<Rightarrow> GameSimulation \<times> GameState" where
  "Update m this current p1Input p2Input =
     (let next = current;
          next = next\<lparr>frameNumber := frameNumber next + 1\<rparr>;
          next = next\<lparr>roundTimer := f_sub (roundTimer next) FIXED_DT\<rparr>;
          next = (if f_lt (roundTimer next) 0 then next\<lparr>roundTimer := 0\<rparr> else next);
          (this, p) = UpdatePlayer m this (player_at (players next) 0) p1Input 0;
          next = next\<lparr>players := set_player (players next) 0 p\<rparr>;
          (this, p) = UpdatePlayer m this (player_at (players next) 1) p2Input 1;
          next = next\<lparr>players := set_player (players next) 1 p\<rparr>;
          (this, next) = UpdateProjectiles this next;
          (this, next) = CheckCollisions m this next;
          (this, next) = CheckWinConditions this next
      in (this, next))"

text \<open>Calling \<^verbatim>\<open>Update\<close> along a sequence of input pairs, each on the state before.\<close>

fun run_Update ::
  "mathlib \<Rightarrow> GameSimulation \<Rightarrow> GameState \<Rightarrow> (InputState \<times> InputState) list
    \<Rightarrow> GameSimulation \<times> GameState" where
  "run_Update m this s [] = (this, s)"
| "run_Update m this s ((i0, i1) # rest) =
     (let (this, s) = Update m this s i0 i1 in run_Update m this s rest)"

text \<open>\<^verbatim>\<open>GameSimulation::SpawnProjectile\<close>, a static member: no engine object.\<close>

definition SpawnProjectile :: "mathlib \<Rightarrow> GameState \<Rightarrow> nat \<Rightarrow> GameState" where
  "SpawnProjectile m state playerIndex =
     (let player = player_at (players state) playerIndex
      in if f_gt (projectileCooldown player) 0 \<or> \<not> alive player then state
         else
           let proj = ProjectileState_default;
               proj = proj\<lparr>ownerID := of_nat playerIndex\<rparr>;
               proj = proj\<lparr>damage := PROJECTILE_DAMAGE\<rparr>;
               angleRad = glm_radians m (facingAngle player);
               dir = \<lparr> vec_x = std_sin m angleRad, vec_y = 0, vec_z = f_neg (std_cos m angleRad) \<rparr>;
               proj = proj\<lparr>ProjectileState.position :=
                        vec3_add (PlayerState.position player)
                          (vec3_scale dir (f_add (f_add PLAYER_RADIUS PROJECTILE_RADIUS) 0x3DCCCCCD))\<rparr>;
               proj = proj\<lparr>ProjectileState.velocity := vec3_scale dir PROJECTILE_SPEED\<rparr>;
               proj = proj\<lparr>active := True\<rparr>;
               state = state\<lparr>projectiles := projectiles state @ [proj]\<rparr>
           in state\<lparr>players := set_player (players state) playerIndex
                        (player\<lparr>projectileCooldown := PROJECTILE_COOLDOWN\<rparr>)\<rparr>)"

text \<open>\<^verbatim>\<open>GameSimulation::CanShoot\<close>.\<close>

definition CanShoot :: "PlayerState \<Rightarrow> bool" where
  "CanShoot pl = (alive pl \<and> f_le (projectileCooldown pl) 0)"

section \<open>The server's connection handling (network\_layer.hpp)\<close>

text \<open>
  \<^verbatim>\<open>ServerNetwork::Update\<close>, the case \<^verbatim>\<open>ENET_EVENT_TYPE_CONNECT\<close>. ENet is outside the
  repository: an \<^verbatim>\<open>ENetPeer*\<close> is modelled by the identity of the peer (\<open>None\<close> for
  \<^verbatim>\<open>nullptr\<close>), the test \<^verbatim>\<open>peers[i]->state == ENET_PEER_STATE_DISCONNECTED\<close> by a
  predicate \<open>disconnected\<close> that stands for ENet's peer table when the event is handled,
  and the calls into ENet and the callbacks by the list of actions the handler performs,
  in order. A callback is invoked only when it is set.
\<close>

type_synonym ENetPeer = nat

datatype action =
    enet_peer_send ENetPeer "byte list"
  | enet_peer_disconnect ENetPeer
  | call_OnPlayerJoined int
  | call_OnGameStart

record ServerNetwork =
  peers :: "ENetPeer option \<times> ENetPeer option"
  pendingInputs :: "InputState list \<times> InputState list"
  OnPlayerJoined :: bool
  OnGameStart :: bool

definition PLAYER_JOINED :: byte where
  "PLAYER_JOINED = 3"

definition GAME_START :: byte where
  "GAME_START = 4"

definition peer_at :: "'a \<times> 'a \<Rightarrow> nat \<Rightarrow> 'a" where
  "peer_at ps i = (if i = 0 then fst ps else snd ps)"

definition set_peer :: "'a \<times> 'a \<Rightarrow> nat \<Rightarrow> 'a \<Rightarrow> 'a \<times> 'a" where
  "set_peer ps i p = (if i = 0 then (p, snd ps) else (fst ps, p))"

text \<open>One round of the clean-up loop, for slot \<open>i\<close>.\<close>

definition reap_slot :: "(ENetPeer \<Rightarrow> bool) \<Rightarrow> ServerNetwork \<Rightarrow> nat \<Rightarrow> ServerNetwork" where
  "reap_slot disconnected this i =
     (case peer_at (peers this) i of
        None \<Rightarrow> this
      | Some q \<Rightarrow>
          if disconnected q
          then this\<lparr>peers := set_peer (peers this) i None,
                    pendingInputs := set_peer (pendingInputs this) i []\<rparr>
          else this)"

text \<open>The search loop: the first empty slot takes the peer of the event, and the loop ends.\<close>

definition find_slot :: "ServerNetwork \<Rightarrow> ENetPeer \<Rightarrow> int \<times> ServerNetwork" where
  "find_slot this event_peer =
     (if peer_at (peers this) 0 = None
      then (0, this\<lparr>peers := set_peer (peers this) 0 (Some event_peer)\<rparr>)
      else if peer_at (peers this) 1 = None
      then (1, this\<lparr>peers := set_peer (peers this) 1 (Some event_peer)\<rparr>)
      else (- 1, this))"

definition on_connect ::
  "(ENetPeer \<Rightarrow> bool) \<Rightarrow> ServerNetwork \<Rightarrow> ENetPeer \<Rightarrow> ServerNetwork \<times> action list" where
  "on_connect disconnected this event_peer =
     (let this = reap_slot disconnected this 0;
          this = reap_slot disconnected this 1;
          (slot, this) = find_slot this event_peer
      in if 0 \<le> slot
         then
           let acts = [enet_peer_send event_peer [PLAYER_JOINED, of_int slot]];
               acts = acts @ (if OnPlayerJoined this then [call_OnPlayerJoined slot] else [])
           in case peers this of
                (Some q0, Some q1) \<Rightarrow>
                  (this, acts @ [enet_peer_send q0 [GAME_START], enet_peer_send q1 [GAME_START]]
                           @ (if OnGameStart this then [call_OnGameStart] else []))
              | _ \<Rightarrow> (this, acts)
         else (this, [enet_peer_disconnect event_peer]))"

section \<open>Notions used in the statements\<close>

subsection \<open>Stages of one call of Update\<close>

text \<open>The engine object as constructed: \<^verbatim>\<open>prevThrowPressed[2] = { false, false }\<close>.\<close>

definition GameSimulation_default :: GameSimulation where
  "GameSimulation_default = \<lparr> prevThrowPressed = (False, False) \<rparr>"

text \<open>
  \<open>timer_stage\<close> is the state after the first statements of \<^verbatim>\<open>Update\<close> (frame counter
  and round timer); \<open>collision_stage\<close> is the state \<^verbatim>\<open>next\<close> when \<^verbatim>\<open>CheckCollisions\<close> has
  returned, right before \<^verbatim>\<open>CheckWinConditions\<close> is called. Lemma \<open>Update_snd\<close> below
  shows that \<^verbatim>\<open>Update\<close> is \<^verbatim>\<open>CheckWinConditions\<close> on that state.
\<close>

definition timer_stage :: "GameState \<Rightarrow> GameState" where
  "timer_stage s =
     (let next = s\<lparr>frameNumber := frameNumber s + 1\<rparr>;
          next = next\<lparr>roundTimer := f_sub (roundTimer next) FIXED_DT\<rparr>
      in if f_lt (roundTimer next) 0 then next\<lparr>roundTimer := 0\<rparr> else next)"

definition collision_stage :: "mathlib \<Rightarrow> GameState \<Rightarrow> InputState \<Rightarrow> InputState \<Rightarrow> GameState" where
  "collision_stage m s i0 i1 =
     (let ps = (snd (UpdatePlayer m GameSimulation_default (player_at (players s) 0) i0 0),
                snd (UpdatePlayer m GameSimulation_default (player_at (players s) 1) i1 1));
          c = collide_all m ps (filter active (map move_projectile (projectiles s)))
      in (timer_stage s)\<lparr>players := fst c, projectiles := snd c\<rparr>)"

text \<open>Two player records that agree on every field but \<^verbatim>\<open>hp\<close> and \<^verbatim>\<open>alive\<close>.\<close>

definition same_but_hp :: "PlayerState \<Rightarrow> PlayerState \<Rightarrow> bool" where
  "same_but_hp p q = (p\<lparr>hp := 0, alive := False\<rparr> = q\<lparr>hp := 0, alive := False\<rparr>)"

subsection \<open>A reference platform\<close>

text \<open>
  The generic implementation of the four glm functions (\<^verbatim>\<open>length(v) = sqrt(dot(v, v))\<close>,
  \<^verbatim>\<open>normalize(v) = v * inversesqrt(dot(v, v))\<close> with \<^verbatim>\<open>inversesqrt(x) = 1 / sqrt(x)\<close>,
  \<^verbatim>\<open>degrees\<close> and \<^verbatim>\<open>radians\<close> a multiplication by a constant), evaluated with the IEEE
  operations above, one rounding for each operation. The three functions of the C
  library are arguments. The concrete runs below use this platform with the three left
  unspecified (\<open>undefined\<close>): what is proved of such a run holds whatever they return.
\<close>

definition glm_dot :: "vec3 \<Rightarrow> vec3 \<Rightarrow> f32" where
  "glm_dot a b =
     f_add (f_add (f_mul (vec_x a) (vec_x b)) (f_mul (vec_y a) (vec_y b)))
           (f_mul (vec_z a) (vec_z b))"

definition ieee_platform ::
  "(f32 \<Rightarrow> f32 \<Rightarrow> f32) \<Rightarrow> (f32 \<Rightarrow> f32) \<Rightarrow> (f32 \<Rightarrow> f32) \<Rightarrow> mathlib" where
  "ieee_platform atan2f sinf cosf =
     \<lparr> glm_length = (\<lambda>v. f_sqrt (glm_dot v v)),
       glm_normalize = (\<lambda>v. vec3_scale v (f_div 0x3F800000 (f_sqrt (glm_dot v v)))),
       glm_degrees = (\<lambda>r. f_mul r 0x42652EE1),
       glm_radians = (\<lambda>d. f_mul d 0x3C8EFA35),
       std_atan2 = atan2f,
       std_sin = sinf,
       std_cos = cosf \<rparr>"

definition platform :: mathlib where
  "platform = ieee_platform undefined undefined undefined"

subsection \<open>Concrete values\<close>

text \<open>An input whose horizontal axis is a NaN.\<close>

definition nan_input :: InputState where
  "nan_input = \<lparr> moveX = 0x7FC00000, moveY = 0, throwProjectile = False, frameNumber = 7 \<rparr>"

text \<open>The state at the start of a match, and the same with player 1 dead.\<close>

definition match_start :: GameState where
  "match_start = ResetMatch GameState_default"

definition player1_dead :: GameState where
  "player1_dead =
     match_start\<lparr>players := set_player (players match_start) 1
        ((player_at (players match_start) 1)\<lparr>hp := 0, alive := False\<rparr>)\<rparr>"

subsection \<open>Scenarios\<close>

text \<open>
  A projectile at rest on a player: \<open>shot_at owner pos\<close> belongs to \<open>owner\<close>, lies at
  \<open>pos\<close> and does \<^verbatim>\<open>PROJECTILE_DAMAGE\<close>.
\<close>

definition shot_at :: "8 word \<Rightarrow> vec3 \<Rightarrow> ProjectileState" where
  "shot_at owner pos = ProjectileState_default\<lparr>ProjectileState.position := pos, ownerID := owner\<rparr>"

text \<open>
  Late in a round: both players on their start positions with \<^verbatim>\<open>10.0f\<close> hit points.
  In \<open>last_hit\<close> a projectile of player 0 lies on player 1; in \<open>double_hit\<close> there is
  also one of player 1 on player 0.
\<close>

definition low_hp :: GameState where
  "low_hp =
     match_start\<lparr>players :=
        ((player_at (players match_start) 0)\<lparr>hp := 0x41200000\<rparr>,
         (player_at (players match_start) 1)\<lparr>hp := 0x41200000\<rparr>)\<rparr>"

definition last_hit :: GameState where
  "last_hit =
     low_hp\<lparr>projectiles := [shot_at 0 (PlayerState.position (player_at (players low_hp) 1))]\<rparr>"

definition double_hit :: GameState where
  "double_hit =
     low_hp\<lparr>projectiles := [shot_at 0 (PlayerState.position (player_at (players low_hp) 1)),
                            shot_at 1 (PlayerState.position (player_at (players low_hp) 0))]\<rparr>"

subsection \<open>Connections\<close>

text \<open>
  A slot is occupied when it holds a peer that has not disconnected; it is reaped by
  the clean-up loop when it holds a peer that has.
\<close>

definition occupied :: "(ENetPeer \<Rightarrow> bool) \<Rightarrow> ServerNetwork \<Rightarrow> nat \<Rightarrow> bool" where
  "occupied disconnected this i =
     (case peer_at (peers this) i of None \<Rightarrow> False | Some q \<Rightarrow> \<not> disconnected q)"

definition reaped :: "(ENetPeer \<Rightarrow> bool) \<Rightarrow> ServerNetwork \<Rightarrow> nat \<Rightarrow> bool" where
  "reaped disconnected this i =
     (case peer_at (peers this) i of None \<Rightarrow> False | Some q \<Rightarrow> disconnected q)"

text \<open>The number of slots that hold a peer.\<close>

definition occupied_count :: "ServerNetwork \<Rightarrow> nat" where
  "occupied_count this =
     (if fst (peers this) = None then 0 else 1) + (if snd (peers this) = None then 0 else 1)"

text \<open>A server whose slot 0 holds peer 7, with one buffered input, and whose slot 1 is empty.\<close>

definition one_client :: ServerNetwork where
  "one_client = \<lparr> peers = (Some 7, None), pendingInputs = ([InputState_default], []),
                   OnPlayerJoined = True, OnGameStart = True \<rparr>"

subsection \<open>Hit points\<close>

text \<open>
  The invariant of a player record: hit points not negative, and alive exactly when
  they are positive. \<open>damage_ok\<close>: a damage that is finite and not negative.
\<close>

definition hp_inv :: "PlayerState \<Rightarrow> bool" where
  "hp_inv p = (f_ge (hp p) 0 \<and> alive p = f_gt (hp p) 0)"

definition damage_ok :: "ProjectileState \<Rightarrow> bool" where
  "damage_ok proj = (f_ge (damage proj) 0 \<and> \<not> is_inf (damage proj))"

text \<open>As \<open>last_hit\<close>, but the projectile on player 1 has the damage \<^verbatim>\<open>-10.0f\<close>.\<close>

definition healing_shot :: GameState where
  "healing_shot =
     low_hp\<lparr>projectiles :=
        [(shot_at 0 (PlayerState.position (player_at (players low_hp) 1)))\<lparr>damage := 0xC1200000\<rparr>]\<rparr>"

subsection \<open>The arena\<close>

text \<open>
  A coordinate in the closed interval from \<^verbatim>\<open>-ARENA_HALF_SIZE\<close> to \<^verbatim>\<open>ARENA_HALF_SIZE\<close>, by
  the comparisons of the floats: a NaN is in no interval.
\<close>

definition in_arena :: "f32 \<Rightarrow> bool" where
  "in_arena v = (f_le (f_neg ARENA_HALF_SIZE) v \<and> f_le v ARENA_HALF_SIZE)"

text \<open>
  What \<^verbatim>\<open>UpdatePlayer\<close> does to one horizontal coordinate \<open>v\<close> of a player that moves:
  \<^verbatim>\<open>position += moveDir\<close> with the component \<open>c\<close> of \<^verbatim>\<open>moveDir\<close>, then the \<^verbatim>\<open>std::clamp\<close>.
\<close>

definition advance :: "f32 \<Rightarrow> f32 \<Rightarrow> f32" where
  "advance c v = std_clamp (f_add v c) (f_neg ARENA_HALF_SIZE) ARENA_HALF_SIZE"

text \<open>The input of player \<open>i\<close> in a pair of inputs, as \<^verbatim>\<open>Update\<close> takes them.\<close>

definition input_of :: "nat \<Rightarrow> InputState \<times> InputState \<Rightarrow> InputState" where
  "input_of i io = (if i = 0 then fst io else snd io)"

text \<open>
  \<open>move_defined\<close>: when the input passes the dead zone of \<^verbatim>\<open>UpdatePlayer\<close>, the two
  horizontal components of \<^verbatim>\<open>glm::normalize(moveDir)\<close> are numbers, not NaN.
  \<open>axis_exact\<close>: the direction \<open>d\<close> passes the dead zone and \<^verbatim>\<open>glm::normalize\<close> returns it as
  it is, which is what is expected of a unit vector along an axis.
\<close>

definition move_defined :: "mathlib \<Rightarrow> InputState \<Rightarrow> bool" where
  "move_defined m input =
     (let moveDir = \<lparr> vec_x = moveX input, vec_y = 0, vec_z = moveY input \<rparr>
      in f_gt (glm_length m moveDir) 0x3C23D70A \<longrightarrow>
           \<not> is_nan (vec_x (glm_normalize m moveDir)) \<and> \<not> is_nan (vec_z (glm_normalize m moveDir)))"

definition axis_exact :: "mathlib \<Rightarrow> vec3 \<Rightarrow> bool" where
  "axis_exact m d = (f_gt (glm_length m d) 0x3C23D70A \<and> glm_normalize m d = d)"

text \<open>
  The wall that a player reaches who pushes an axis to \<open>a\<close>, which is \<^verbatim>\<open>1.0f\<close> or \<^verbatim>\<open>-1.0f\<close>.
\<close>

definition wall :: "f32 \<Rightarrow> f32" where
  "wall a = (if a = 0x3F800000 then ARENA_HALF_SIZE else f_neg ARENA_HALF_SIZE)"

text \<open>
  Two inputs: the horizontal axis at \<^verbatim>\<open>+infinity\<close>, and the horizontal axis at \<^verbatim>\<open>1.0f\<close>.
\<close>

definition inf_input :: InputState where
  "inf_input = \<lparr> moveX = 0x7F800000, moveY = 0, throwProjectile = False, frameNumber = 0 \<rparr>"

definition east_input :: InputState where
  "east_input = \<lparr> moveX = 0x3F800000, moveY = 0, throwProjectile = False, frameNumber = 0 \<rparr>"

section \<open>Codec lemmas\<close>

lemma le_word32_le_bytes32: "le_word32 (le_bytes32 w) = w"
proof (rule bit_word_eqI)
  fix n :: nat
  assume "n < LENGTH(32)"
  then consider "n < 8" | "8 \<le> n" "n < 16" | "16 \<le> n" "n < 24" | "24 \<le> n" "n < 32"
    by fastforce
  then show "bit (le_word32 (le_bytes32 w)) n = bit w n"
    by cases (auto simp add: le_bytes32_def bit_simps)
qed

lemma le_word16_le_bytes16: "le_word16 (le_bytes16 w) = w"
proof (rule bit_word_eqI)
  fix n :: nat
  assume "n < LENGTH(16)"
  then consider "n < 8" | "8 \<le> n" "n < 16"
    by fastforce
  then show "bit (le_word16 (le_bytes16 w)) n = bit w n"
    by cases (auto simp add: le_bytes16_def bit_simps)
qed

lemma host_order_twice: "host_order en (host_order en bs) = bs"
  by (cases en) (simp_all add: host_order_def)

lemma length_host_order: "length (host_order en bs) = length bs"
  by (cases en) (simp_all add: host_order_def)

lemma u32_of_bytes_of_u32: "u32_of_bytes en (bytes_of_u32 en w) = w"
  by (simp add: u32_of_bytes_def bytes_of_u32_def host_order_twice le_word32_le_bytes32)

lemma u16_of_bytes_of_u16: "u16_of_bytes en (bytes_of_u16 en w) = w"
  by (simp add: u16_of_bytes_def bytes_of_u16_def host_order_twice le_word16_le_bytes16)

lemma length_bytes_of_u32: "length (bytes_of_u32 en w) = 4"
  by (simp add: bytes_of_u32_def length_host_order le_bytes32_def)

lemma length_bytes_of_u16: "length (bytes_of_u16 en w) = 2"
  by (simp add: bytes_of_u16_def length_host_order le_bytes16_def)

lemma mem_read_at:
  "length pre = offset \<Longrightarrow> length bs = n \<Longrightarrow> mem_read (pre @ bs @ post) offset n = bs"
  by (simp add: mem_read_def)

lemma length_bytes_of_vec3: "length (bytes_of_vec3 en v) = 12"
  by (simp add: bytes_of_vec3_def length_bytes_of_u32)

lemma vec3_of_bytes_of_vec3: "vec3_of_bytes en (bytes_of_vec3 en v) = v"
  by (simp add: vec3_of_bytes_def bytes_of_vec3_def mem_read_def length_bytes_of_u32
      u32_of_bytes_of_u32)

lemma length_ProjectileState_Serialize: "length (ProjectileState_Serialize en p) = 30"
  by (simp add: ProjectileState_Serialize_def length_bytes_of_vec3 length_bytes_of_u32
      bytes_of_bool_def)

lemma length_PlayerState_Serialize: "length (PlayerState_Serialize en p) = 38"
  by (simp add: PlayerState_Serialize_def length_bytes_of_vec3 length_bytes_of_u32
      bytes_of_bool_def)

lemma length_InputState_Serialize: "length (InputState_Serialize en i) = 13"
  by (simp add: InputState_Serialize_def length_bytes_of_u32)

text \<open>
  Decoding a record at the offset where its encoding starts gives the record back and
  the offset right after it, whatever bytes come before and after.
\<close>

lemma ProjectileState_roundtrip:
  "ProjectileState_Deserialize en (pre @ ProjectileState_Serialize en p @ post) (length pre) this
     = (p, length pre + 30)"
  by (simp add: ProjectileState_Deserialize_def ProjectileState_Serialize_def Let_def mem_read_def
      length_bytes_of_vec3 length_bytes_of_u32 bytes_of_bool_def bool_of_bytes_def
      u32_of_bytes_of_u32 vec3_of_bytes_of_vec3)

lemma PlayerState_roundtrip:
  "PlayerState_Deserialize en (pre @ PlayerState_Serialize en p @ post) (length pre) this
     = (p, length pre + 38)"
  by (simp add: PlayerState_Deserialize_def PlayerState_Serialize_def Let_def mem_read_def
      length_bytes_of_vec3 length_bytes_of_u32 bytes_of_bool_def bool_of_bytes_def
      u32_of_bytes_of_u32 vec3_of_bytes_of_vec3)

lemma InputState_roundtrip:
  "InputState_Deserialize en (InputState_Serialize en i) 13 this = i"
  by (simp add: InputState_Deserialize_def InputState_Serialize_def Let_def mem_read_def
      length_bytes_of_u32 u32_of_bytes_of_u32)

lemma Deserialize_projectiles_roundtrip:
  "Deserialize_projectiles en (pre @ concat (map (ProjectileState_Serialize en) ps) @ post)
     (length pre) (length ps) = (ps, length pre + 30 * length ps)"
proof (induction ps arbitrary: pre)
  case Nil
  show ?case by simp
next
  case (Cons p ps)
  let ?rest = "concat (map (ProjectileState_Serialize en) ps) @ post"
  have one: "ProjectileState_Deserialize en (pre @ ProjectileState_Serialize en p @ ?rest)
      (length pre) ProjectileState_default = (p, length pre + 30)"
    by (rule ProjectileState_roundtrip)
  have more: "Deserialize_projectiles en ((pre @ ProjectileState_Serialize en p) @ ?rest)
      (length (pre @ ProjectileState_Serialize en p)) (length ps)
        = (ps, length (pre @ ProjectileState_Serialize en p) + 30 * length ps)"
    by (rule Cons.IH)
  from one more show ?case
    by (simp add: length_ProjectileState_Serialize)
qed

lemma unat_projCount:
  "length ps \<le> 65535 \<Longrightarrow> unat (of_nat (length ps) :: 16 word) = length ps"
  by (simp add: unat_of_nat take_bit_nat_eq_self)

lemma GameState_roundtrip:
  assumes "length (projectiles s) \<le> 65535"
  shows "GameState_Deserialize en (GameState_Serialize en s) sz this = s"
proof -
  let ?P0 = "PlayerState_Serialize en (player_at (players s) 0)"
  let ?P1 = "PlayerState_Serialize en (player_at (players s) 1)"
  let ?cnt = "bytes_of_u16 en (of_nat (length (projectiles s)))"
  let ?projs = "concat (map (ProjectileState_Serialize en) (projectiles s))"
  let ?tail = "bytes_of_u32 en (frameNumber s) @ bytes_of_u32 en (roundTimer s) @ [currentRound s]"
  let ?b = "GameState_Serialize en s"
  let ?n = "length (projectiles s)"
  have b: "?b = ?P0 @ ?P1 @ ?cnt @ ?projs @ ?tail"
    by (simp add: GameState_Serialize_def)
  have p0: "PlayerState_Deserialize en ?b 0 t = (player_at (players s) 0, 0 + 38)" for t
    using PlayerState_roundtrip [of en "[]" "player_at (players s) 0" "?P1 @ ?cnt @ ?projs @ ?tail" t]
    by (simp add: b)
  have p1: "PlayerState_Deserialize en ?b (0 + 38) t = (player_at (players s) 1, 0 + 38 + 38)" for t
    using PlayerState_roundtrip [of en ?P0 "player_at (players s) 1" "?cnt @ ?projs @ ?tail" t]
    by (simp add: b length_PlayerState_Serialize)
  have cnt: "mem_read ?b (0 + 38 + 38) 2 = ?cnt"
    using mem_read_at [of "?P0 @ ?P1" 76 ?cnt 2 "?projs @ ?tail"]
    by (simp add: b length_PlayerState_Serialize length_bytes_of_u16)
  have projs: "Deserialize_projectiles en ?b (0 + 38 + 38 + 2) ?n
      = (projectiles s, 78 + 30 * ?n)"
    using Deserialize_projectiles_roundtrip [of en "?P0 @ ?P1 @ ?cnt" "projectiles s" ?tail]
    by (simp add: b length_PlayerState_Serialize length_bytes_of_u16)
  let ?o = "78 + 30 * ?n"
  have lp: "length (?P0 @ ?P1 @ ?cnt @ ?projs) = ?o"
    by (simp add: length_PlayerState_Serialize length_bytes_of_u16 length_concat
        length_ProjectileState_Serialize comp_def sum_list_triv)
  have fr: "mem_read ?b ?o 4 = bytes_of_u32 en (frameNumber s)"
    using mem_read_at [of "?P0 @ ?P1 @ ?cnt @ ?projs" ?o "bytes_of_u32 en (frameNumber s)" 4
        "bytes_of_u32 en (roundTimer s) @ [currentRound s]"] lp
    by (simp add: b length_bytes_of_u32)
  have ti: "mem_read ?b (?o + 4) 4 = bytes_of_u32 en (roundTimer s)"
    using mem_read_at [of "?P0 @ ?P1 @ ?cnt @ ?projs @ bytes_of_u32 en (frameNumber s)" "?o + 4"
        "bytes_of_u32 en (roundTimer s)" 4 "[currentRound s]"] lp
    by (simp add: b length_bytes_of_u32)
  have ro: "mem_read ?b (?o + 4 + 4) 1 = [currentRound s]"
    using mem_read_at [of "?P0 @ ?P1 @ ?cnt @ ?projs @ bytes_of_u32 en (frameNumber s)
        @ bytes_of_u32 en (roundTimer s)" "?o + 4 + 4" "[currentRound s]" 1 "[]"] lp
    by (simp add: b length_bytes_of_u32)
  have "GameState_Deserialize en ?b sz this =
      this\<lparr>players := players s, projectiles := projectiles s, frameNumber := frameNumber s,
           roundTimer := roundTimer s, currentRound := currentRound s\<rparr>"
    unfolding GameState_Deserialize_def Let_def
    by (simp only: p0 p1 cnt projs fr ti ro prod.case u16_of_bytes_of_u16
        unat_projCount [OF assms] u32_of_bytes_of_u32 list.sel
        GameState.simps GameState.update_convs)
       (simp add: set_player_def player_at_def)
  then show ?thesis by simp
qed

section \<open>Evaluating floats\<close>

text \<open>
  The rules that compute the float operations on bit patterns given as numerals. The
  bit length is unfolded on numerals only, so that the rules terminate.
\<close>

lemma floorlog_numeral: "floorlog 2 (numeral k :: nat) = floorlog 2 (numeral k div 2 :: nat) + 1"
  by (subst compute_floorlog) simp

lemma floorlog_one: "floorlog 2 (Suc 0) = 1"
  by (simp add: compute_floorlog)

lemma floorlog_zero: "floorlog 2 (0::nat) = 0"
  by (simp add: compute_floorlog)

lemmas f_eval = f_add_def f_sub_def f_mul_def f_div_def f_neg_def f_abs_def f_nan_def f_encode_def
  encode_bits_def
  round_nearest_even_def is_nan_def is_inf_def f_val_def f_mag_def f_negative_def f_exponent_def
  f_fraction_def f_abs_bits_def f_lt_def f_le_def f_gt_def f_ge_def f_eq_def std_clamp_def
  floorlog_numeral floorlog_one floorlog_zero

lemma FIXED_DT_bits: "FIXED_DT = 0x3C888889"
  by (simp add: FIXED_DT_def f_eval)

section \<open>IEEE-754 facts: rounding and encoding\<close>

text \<open>The exponent of the unit in the last place of a magnitude \<open>M\<close>.\<close>

lemma ulp_quotient_less: "M div 2 ^ (floorlog 2 M - 24) < 2 ^ 24"
proof (cases "M = 0")
  case True
  then show ?thesis by simp
next
  case False
  then have "M < 2 ^ floorlog 2 M"
    using floorlog_bounds [of M 2] by simp
  also have "\<dots> \<le> 2 ^ (24 + (floorlog 2 M - 24))"
    by (rule power_increasing) simp_all
  finally have "M < 2 ^ 24 * 2 ^ (floorlog 2 M - 24)"
    by (simp add: power_add)
  then show ?thesis
    by (simp add: less_mult_imp_div_less)
qed

lemma ulp_quotient_ge:
  assumes "2 ^ 23 \<le> M"
  shows "2 ^ 23 \<le> M div 2 ^ (floorlog 2 M - 24)"
proof -
  from assms have pos: "0 < M"
    by (simp add: order.strict_trans2 [OF _ assms])
  have "24 \<le> floorlog 2 M"
    using floorlog_ge_SucI [of 2 23 M] assms by simp
  then have e: "floorlog 2 M - 1 = 23 + (floorlog 2 M - 24)"
    by simp
  have "(2::nat) ^ (floorlog 2 M - 1) \<le> M"
    using floorlog_bounds [of M 2] pos by simp
  then have "(2::nat) ^ 23 * 2 ^ (floorlog 2 M - 24) \<le> M"
    unfolding e power_add .
  then show ?thesis
    by (simp only: less_eq_div_iff_mult_less_eq zero_less_power zero_less_numeral)
qed

lemma ulp_exponent_le:
  assumes "M < 2 ^ 277"
  shows "floorlog 2 M - 24 \<le> 253"
proof -
  have "floorlog 2 M \<le> 277"
    using assms by (simp add: floorlog_le_iff)
  then show ?thesis by simp
qed

lemma ulp_exponent_small: "M < 2 ^ 24 \<Longrightarrow> floorlog 2 M - 24 = 0"
  by (simp add: floorlog_le_iff)


lemma encode_bits_less:
  assumes "M < 2 ^ 277"
  shows "(floorlog 2 M - 24) * 2 ^ 23 + M div 2 ^ (floorlog 2 M - 24) < 255 * 2 ^ 23"
proof -
  have "(floorlog 2 M - 24) * (2::nat) ^ 23 \<le> 253 * 2 ^ 23"
    using ulp_exponent_le [OF assms] by simp
  moreover have "M div 2 ^ (floorlog 2 M - 24) < 2 * 2 ^ 23"
    using ulp_quotient_less [of M] by simp
  ultimately show ?thesis
    by simp
qed

lemma unat_of_nat32: "n < 2 ^ 32 \<Longrightarrow> unat (of_nat n :: 32 word) = n"
  by (simp add: unat_of_nat)

lemma encode_bits_le: "encode_bits M \<le> 2139095040"
proof (cases "(2::nat) ^ 277 \<le> M")
  case True
  then show ?thesis by (simp add: encode_bits_def)
next
  case False
  then have "M < 2 ^ 277" by simp
  from encode_bits_less [OF this] False show ?thesis
    by (simp add: encode_bits_def)
qed

lemma f_encode_bits: "f_encode neg M = of_nat ((if neg then 2 ^ 31 else 0) + encode_bits M)"
  by (simp only: f_encode_def)

lemma unat_f_encode: "unat (f_encode neg M) = (if neg then 2 ^ 31 else 0) + encode_bits M"
proof -
  have "(if neg then 2 ^ 31 else 0) + encode_bits M < (2::nat) ^ 32"
    using encode_bits_le [of M] by (simp split: if_splits)
  then show ?thesis
    unfolding f_encode_bits by (rule unat_of_nat32)
qed

lemma f_negative_f_encode: "f_negative (f_encode neg M) = neg"
  unfolding f_negative_def unat_f_encode
  using encode_bits_le [of M] by (simp split: if_splits)

lemma f_abs_bits_f_encode: "f_abs_bits (f_encode neg M) = encode_bits M"
  unfolding f_abs_bits_def unat_f_encode
  using encode_bits_le [of M] by (simp split: if_splits)


lemma exponent_fraction_f_encode:
  "f_exponent (f_encode neg M) =
     (if 2 ^ 277 \<le> M then 255 else if M < 2 ^ 23 then 0 else floorlog 2 M - 24 + 1)"
  "f_fraction (f_encode neg M) =
     (if 2 ^ 277 \<le> M then 0 else if M < 2 ^ 23 then M
      else M div 2 ^ (floorlog 2 M - 24) - 2 ^ 23)"
proof -
  consider "2 ^ 277 \<le> M" | "M < 2 ^ 23" | "2 ^ 23 \<le> M" "M < 2 ^ 277"
    by linarith
  then have "f_exponent (f_encode neg M) =
     (if 2 ^ 277 \<le> M then 255 else if M < 2 ^ 23 then 0 else floorlog 2 M - 24 + 1)
    \<and> f_fraction (f_encode neg M) =
     (if 2 ^ 277 \<le> M then 0 else if M < 2 ^ 23 then M
      else M div 2 ^ (floorlog 2 M - 24) - 2 ^ 23)"
  proof cases
    case 1
    then show ?thesis
      by (simp add: f_exponent_def f_fraction_def f_abs_bits_f_encode encode_bits_def)
  next
    case 2
    then have "M < 2 ^ 24" by simp
    then have e: "floorlog 2 M - 24 = 0"
      by (rule ulp_exponent_small)
    from 2 have "\<not> 2 ^ 277 \<le> M" by simp
    with 2 show ?thesis
      by (simp add: f_exponent_def f_fraction_def f_abs_bits_f_encode encode_bits_def e)
  next
    case 3
    define E where "E = floorlog 2 M - 24"
    define t where "t = M div 2 ^ E"
    have t: "2 ^ 23 \<le> t" "t < 2 ^ 24"
      using ulp_quotient_ge [OF 3(1)] ulp_quotient_less [of M] by (simp_all add: t_def E_def)
    have bits: "encode_bits M = E * 2 ^ 23 + t"
      using 3 by (simp add: encode_bits_def E_def t_def)
    have dm: "(E * P + t) div P = E + 1 \<and> (E * P + t) mod P = t - P"
      if "0 < P" "P \<le> t" "t < 2 * P" for P :: nat
    proof -
      from that obtain d where d: "t = P + d" "d < P"
        by (metis add.commute le_Suc_ex mult_2 nat_add_left_cancel_less)
      have "E * P + t = (E + 1) * P + d"
        by (simp add: d algebra_simps)
      with d that(1) show ?thesis
        by simp
    qed
    have "(E * 2 ^ 23 + t) div 2 ^ 23 = E + 1 \<and> (E * 2 ^ 23 + t) mod 2 ^ 23 = t - 2 ^ 23"
      by (rule dm) (use t in simp_all)
    then have "(E * 2 ^ 23 + t) div 2 ^ 23 = E + 1"
      and "(E * 2 ^ 23 + t) mod 2 ^ 23 = t - 2 ^ 23"
      by blast+
    then show ?thesis
      using 3 unfolding f_exponent_def f_fraction_def f_abs_bits_f_encode bits
      by (simp add: E_def t_def)
  qed
  then show "f_exponent (f_encode neg M) =
     (if 2 ^ 277 \<le> M then 255 else if M < 2 ^ 23 then 0 else floorlog 2 M - 24 + 1)"
    and "f_fraction (f_encode neg M) =
     (if 2 ^ 277 \<le> M then 0 else if M < 2 ^ 23 then M
      else M div 2 ^ (floorlog 2 M - 24) - 2 ^ 23)"
    by simp_all
qed

lemma is_nan_f_encode: "\<not> is_nan (f_encode neg M)"
  using ulp_exponent_le [of M]
  by (auto simp add: is_nan_def exponent_fraction_f_encode split: if_splits)

lemma is_inf_f_encode: "is_inf (f_encode neg M) = (2 ^ 277 \<le> M)"
  using ulp_exponent_le [of M]
  by (auto simp add: is_inf_def exponent_fraction_f_encode split: if_splits)

lemma f_mag_f_encode:
  "f_mag (f_encode neg M) =
     (if 2 ^ 277 \<le> M then 2 ^ 277
      else M div 2 ^ (floorlog 2 M - 24) * 2 ^ (floorlog 2 M - 24))"
proof -
  consider "2 ^ 277 \<le> M" | "M < 2 ^ 23" | "2 ^ 23 \<le> M" "M < 2 ^ 277"
    by linarith
  then show ?thesis
  proof cases
    case 1
    then show ?thesis
      by (simp add: f_mag_def exponent_fraction_f_encode)
  next
    case 2
    then have "M < 2 ^ 24" by simp
    then have e: "floorlog 2 M - 24 = 0"
      by (rule ulp_exponent_small)
    from 2 have "\<not> 2 ^ 277 \<le> M" by simp
    with 2 show ?thesis
      by (simp add: f_mag_def exponent_fraction_f_encode e)
  next
    case 3
    have "2 ^ 23 \<le> M div 2 ^ (floorlog 2 M - 24)"
      by (rule ulp_quotient_ge [OF 3(1)])
    with 3 show ?thesis
      by (simp add: f_mag_def exponent_fraction_f_encode)
  qed
qed

lemma rne_unfold:
  "round_nearest_even 0 M =
     (let e = floorlog 2 M - 24; q = M div 2 ^ e; r = M mod 2 ^ e
      in (if 2 * r < 2 ^ e then q else if 2 ^ e < 2 * r then q + 1
          else if even q then q else q + 1) * 2 ^ e)"
  by (simp add: round_nearest_even_def Let_def)

lemma rne_cases:
  obtains (down) "round_nearest_even 0 M = M div 2 ^ (floorlog 2 M - 24) * 2 ^ (floorlog 2 M - 24)"
      "2 * (M mod 2 ^ (floorlog 2 M - 24)) \<le> 2 ^ (floorlog 2 M - 24)"
  | (up) "round_nearest_even 0 M = (M div 2 ^ (floorlog 2 M - 24) + 1) * 2 ^ (floorlog 2 M - 24)"
      "2 ^ (floorlog 2 M - 24) \<le> 2 * (M mod 2 ^ (floorlog 2 M - 24))"
  unfolding rne_unfold Let_def
  by (cases "2 * (M mod 2 ^ (floorlog 2 M - 24)) < 2 ^ (floorlog 2 M - 24)";
      cases "2 ^ (floorlog 2 M - 24) < 2 * (M mod 2 ^ (floorlog 2 M - 24))";
      cases "even (M div 2 ^ (floorlog 2 M - 24))") auto

text \<open>Rounding moves a magnitude by half a unit in the last place at most.\<close>

lemma rne_error:
  "2 * round_nearest_even 0 M \<le> 2 * M + 2 ^ (floorlog 2 M - 24)"
  "2 * M \<le> 2 * round_nearest_even 0 M + 2 ^ (floorlog 2 M - 24)"
proof -
  define P where "P = (2::nat) ^ (floorlog 2 M - 24)"
  have M: "M = M div P * P + M mod P"
    by simp
  have "2 * round_nearest_even 0 M \<le> 2 * M + P \<and> 2 * M \<le> 2 * round_nearest_even 0 M + P"
  proof (cases rule: rne_cases [of M])
    case down
    then have "round_nearest_even 0 M = M div P * P" "2 * (M mod P) \<le> P"
      by (simp_all add: P_def)
    with M show ?thesis
      by linarith
  next
    case up
    then have "round_nearest_even 0 M = M div P * P + P" "P \<le> 2 * (M mod P)"
      by (simp_all add: P_def)
    moreover have "M mod P < P"
      by (simp add: P_def)
    ultimately show ?thesis
      using M by linarith
  qed
  then show "2 * round_nearest_even 0 M \<le> 2 * M + 2 ^ (floorlog 2 M - 24)"
    and "2 * M \<le> 2 * round_nearest_even 0 M + 2 ^ (floorlog 2 M - 24)"
    by (simp_all add: P_def)
qed

text \<open>A magnitude is representable when it is a whole number of its units in the last place.\<close>

lemma rne_le_representable:
  assumes "M \<le> A" and "2 ^ (floorlog 2 A - 24) dvd A"
  shows "round_nearest_even 0 M \<le> A"
proof (cases rule: rne_cases [of M])
  case down
  have "M div 2 ^ (floorlog 2 M - 24) * 2 ^ (floorlog 2 M - 24) \<le> M"
    by simp
  also note assms(1)
  finally show ?thesis
    by (simp only: down(1))
next
  case up
  define P where "P = (2::nat) ^ (floorlog 2 M - 24)"
  have "floorlog 2 M - 24 \<le> floorlog 2 A - 24"
    using floorlog_mono [OF assms(1), of 2] by simp
  then have "P dvd 2 ^ (floorlog 2 A - 24)"
    unfolding P_def by (rule le_imp_power_dvd)
  then have "P dvd A"
    using assms(2) by (rule dvd_trans)
  then obtain k where k: "A = k * P"
    by (metis dvd_def mult.commute)
  have P: "0 < P"
    by (simp add: P_def)
  show ?thesis
  proof (cases "M mod P = 0")
    case True
    with up(2) P show ?thesis
      by (simp add: P_def)
  next
    case False
    have "M div P < k"
    proof (rule ccontr)
      assume "\<not> M div P < k"
      then have "k * P \<le> M div P * P"
        by simp
      also have "\<dots> \<le> M"
        by simp
      finally have "M = k * P"
        using assms(1) k by simp
      then have "M mod P = 0"
        by simp
      with False show False ..
    qed
    then have "M div P + 1 \<le> k"
      by simp
    then have "(M div P + 1) * P \<le> k * P"
      by (rule mult_le_mono1)
    with up(1) k show ?thesis
      by (simp add: P_def)
  qed
qed

lemma rne_representable:
  "2 ^ (floorlog 2 (round_nearest_even 0 M) - 24) dvd round_nearest_even 0 M"
proof -
  define E where "E = floorlog 2 M - 24"
  define q where "q = M div 2 ^ E"
  have q: "q < 2 ^ 24"
    unfolding q_def E_def by (rule ulp_quotient_less)
  have rep: "2 ^ (floorlog 2 (t * 2 ^ E) - 24) dvd t * 2 ^ E" if "t \<le> 2 ^ 24" for t :: nat
  proof (cases "t = 0")
    case True
    then show ?thesis by simp
  next
    case False
    then have fl: "floorlog 2 (t * 2 ^ E) = floorlog 2 t + E"
      by simp
    show ?thesis
    proof (cases "t = 2 ^ 24")
      case True
      have "floorlog 2 ((2::nat) ^ 24) = 25"
        using floorlog_power [of 1 2 24] by (simp add: floorlog_one)
      then have "floorlog 2 (t * 2 ^ E) - 24 = E + 1"
        using fl True by simp
      moreover have "(2::nat) ^ (E + 1) dvd 2 ^ 24 * 2 ^ E"
        unfolding power_add [symmetric] by (rule le_imp_power_dvd) simp
      ultimately show ?thesis
        using True by simp
    next
      case False
      with that have "t < 2 ^ 24" by simp
      then have "floorlog 2 t \<le> 24"
        by (simp add: floorlog_le_iff)
      then have "floorlog 2 (t * 2 ^ E) - 24 \<le> E"
        using fl by simp
      then have "(2::nat) ^ (floorlog 2 (t * 2 ^ E) - 24) dvd 2 ^ E"
        by (rule le_imp_power_dvd)
      then show ?thesis
        by (rule dvd_mult)
    qed
  qed
  show ?thesis
  proof (cases rule: rne_cases [of M])
    case down
    then have "round_nearest_even 0 M = q * 2 ^ E"
      by (simp add: q_def E_def)
    with rep [of q] q show ?thesis
      by simp
  next
    case up
    then have "round_nearest_even 0 M = (q + 1) * 2 ^ E"
      by (simp add: q_def E_def)
    with rep [of "q + 1"] q show ?thesis
      by simp
  qed
qed

lemma f_mag_f_encode_round:
  "f_mag (f_encode neg (round_nearest_even 0 M)) =
     (if 2 ^ 277 \<le> round_nearest_even 0 M then 2 ^ 277 else round_nearest_even 0 M)"
  using rne_representable [of M]
  by (simp add: f_mag_f_encode dvd_div_mult_self)

lemma bit31_int: "0 \<le> k \<Longrightarrow> k < 2 ^ 32 \<Longrightarrow> bit k 31 = (2 ^ 31 \<le> k)" for k :: int
proof -
  assume k: "0 \<le> k" "k < 2 ^ 32"
  have "k div 2 ^ 31 = (if 2 ^ 31 \<le> k then 1 else 0)"
    using k by (auto simp add: div_pos_pos_trivial intro!: int_div_pos_eq [where r = "k - 2 ^ 31"])
  then show ?thesis
    by (simp add: bit_iff_odd)
qed

lemma flip31_int:
  "0 \<le> k \<Longrightarrow> k < 2 ^ 32 \<Longrightarrow> k XOR 2 ^ 31 = (if 2 ^ 31 \<le> k then k - 2 ^ 31 else k + 2 ^ 31)"
  for k :: int
proof -
  assume k: "0 \<le> k" "k < 2 ^ 32"
  have "k XOR 2 ^ 31 = flip_bit 31 k"
    by (simp add: flip_bit_eq_xor push_bit_eq_mult)
  also have "\<dots> = (if bit k 31 then unset_bit 31 k else set_bit 31 k)"
    by (simp add: flip_bit_eq_if)
  also have "\<dots> = (if 2 ^ 31 \<le> k then k - 2 ^ 31 else k + 2 ^ 31)"
    by (simp add: bit31_int [OF k] set_bit_eq unset_bit_eq)
  finally show ?thesis .
qed

lemma flip31_nat:
  "n < 2 ^ 32 \<Longrightarrow> n XOR 2 ^ 31 = (if 2 ^ 31 \<le> n then n - 2 ^ 31 else n + 2 ^ 31)" for n :: nat
proof -
  assume n: "n < 2 ^ 32"
  have "int (n XOR 2 ^ 31) = int n XOR 2 ^ 31"
    by (simp add: of_nat_xor_eq)
  also have "\<dots> = (if 2 ^ 31 \<le> int n then int n - 2 ^ 31 else int n + 2 ^ 31)"
    by (rule flip31_int) (use n in simp_all)
  also have "\<dots> = int (if 2 ^ 31 \<le> n then n - 2 ^ 31 else n + 2 ^ 31)"
    by (simp add: of_nat_diff)
  finally show ?thesis
    by (simp only: of_nat_eq_iff)
qed

lemma unat_f_neg:
  "unat (f_neg a) = (if 2 ^ 31 \<le> unat a then unat a - 2 ^ 31 else unat a + 2 ^ 31)"
proof -
  have "unat a < 2 ^ 32"
    using unsigned_less [of a] by simp
  then have "unat a XOR 2 ^ 31 = (if 2 ^ 31 \<le> unat a then unat a - 2 ^ 31 else unat a + 2 ^ 31)"
    by (rule flip31_nat)
  moreover have "unat (a XOR 0x80000000) = unat a XOR unat (0x80000000 :: 32 word)"
    by (rule unsigned_xor_eq)
  ultimately show ?thesis
    by (simp add: f_neg_def)
qed

lemma f_neg_parts:
  "f_abs_bits (f_neg a) = f_abs_bits a"
  "f_negative (f_neg a) = (\<not> f_negative a)"
proof -
  have lt: "unat a < 2 ^ 32"
    using unsigned_less [of a] by simp
  show "f_abs_bits (f_neg a) = f_abs_bits a"
    unfolding f_abs_bits_def unat_f_neg
    by (simp add: mod_if le_mod_geq)
  show "f_negative (f_neg a) = (\<not> f_negative a)"
    unfolding f_negative_def unat_f_neg using lt
    by (simp split: if_splits) arith
qed

lemma f_neg_class:
  "f_exponent (f_neg a) = f_exponent a"
  "f_fraction (f_neg a) = f_fraction a"
  "is_nan (f_neg a) = is_nan a"
  "is_inf (f_neg a) = is_inf a"
  "f_mag (f_neg a) = f_mag a"
  "f_val (f_neg a) = - f_val a"
  by (simp_all add: f_exponent_def f_fraction_def is_nan_def is_inf_def f_mag_def f_val_def
      f_neg_parts)

lemma f_abs_parts:
  "f_abs_bits (f_abs a) = f_abs_bits a"
  "f_negative (f_abs a) = False"
proof -
  have "f_abs a = take_bit 31 a"
    by (simp add: f_abs_def take_bit_eq_mask mask_numeral)
  moreover have "unat (take_bit 31 a) = take_bit 31 (unat a)"
    by (rule unsigned_take_bit_eq)
  moreover have "take_bit 31 (unat a) = unat a mod 2 ^ 31"
    by (rule take_bit_eq_mod)
  ultimately have u: "unat (f_abs a) = unat a mod 2 ^ 31"
    by (simp only:)
  show "f_abs_bits (f_abs a) = f_abs_bits a"
    by (simp add: f_abs_bits_def u)
  have "unat a mod 2 ^ 31 < 2 ^ 31"
    by simp
  then show "f_negative (f_abs a) = False"
    unfolding f_negative_def u by simp
qed

lemma f_exponent_le: "f_exponent w \<le> 255"
proof -
  have "f_abs_bits w < 2 ^ 31"
    by (simp add: f_abs_bits_def)
  then have "f_abs_bits w div 2 ^ 23 < 2 ^ 8"
    by (simp add: less_mult_imp_div_less)
  then show ?thesis
    by (simp add: f_exponent_def)
qed

lemma f_fraction_less: "f_fraction w < 2 ^ 23"
  by (simp add: f_fraction_def)

text \<open>The magnitude of a finite float has at most 24 significant bits and lies below \<open>2\<^sup>2\<^sup>7\<^sup>7\<close>.\<close>

lemma finite_mag:
  assumes "f_exponent w \<noteq> 255"
  shows "f_mag w < 2 ^ 277" and "2 ^ (floorlog 2 (f_mag w) - 24) dvd f_mag w"
proof -
  have "f_mag w < 2 ^ 277 \<and> 2 ^ (floorlog 2 (f_mag w) - 24) dvd f_mag w"
  proof (cases "f_exponent w = 0")
    case True
    then have m: "f_mag w = f_fraction w"
      by (simp add: f_mag_def)
    have "f_fraction w < 2 ^ 24"
      using f_fraction_less [of w] by simp
    then have "floorlog 2 (f_mag w) - 24 = 0"
      unfolding m by (rule ulp_exponent_small)
    moreover have "f_fraction w < 2 ^ 277"
      using f_fraction_less [of w] by simp
    ultimately show ?thesis
      by (simp add: m)
  next
    case False
    define t where "t = 2 ^ 23 + f_fraction w"
    define k where "k = f_exponent w - 1"
    have m: "f_mag w = t * 2 ^ k"
      using False by (simp add: f_mag_def t_def k_def)
    have t: "2 ^ 23 \<le> t" "t < 2 ^ 24"
      using f_fraction_less [of w] by (simp_all add: t_def)
    have k: "k \<le> 253"
      using assms f_exponent_le [of w] by (simp add: k_def)
    have "floorlog 2 t \<le> 24"
      using t(2) by (simp add: floorlog_le_iff)
    moreover have "24 \<le> floorlog 2 t"
      using floorlog_ge_SucI [of 2 23 t] t(1) by simp
    ultimately have ft: "floorlog 2 t = 24"
      by simp
    have "0 < t"
      using t(1) by simp
    then have "floorlog 2 (t * 2 ^ k) = 24 + k"
      by (simp add: ft)
    then have d: "2 ^ (floorlog 2 (f_mag w) - 24) dvd f_mag w"
      by (simp add: m)
    have "t * 2 ^ k < 2 ^ 24 * 2 ^ k"
      using t(2) by simp
    also have "\<dots> \<le> 2 ^ 24 * 2 ^ 253"
    proof -
      have "(2::nat) ^ k \<le> 2 ^ 253"
        using k by (rule power_increasing) simp
      then show ?thesis
        by (rule mult_le_mono2)
    qed
    finally have "f_mag w < 2 ^ 277"
      by (simp add: m)
    then show ?thesis
      using d by (rule conjI)
  qed
  then show "f_mag w < 2 ^ 277" and "2 ^ (floorlog 2 (f_mag w) - 24) dvd f_mag w"
    by simp_all
qed

lemma inf_mag: "is_inf w \<Longrightarrow> f_mag w = 2 ^ 277"
  by (simp add: is_inf_def f_mag_def)

lemma finite_class: "f_exponent w \<noteq> 255 \<Longrightarrow> \<not> is_nan w \<and> \<not> is_inf w"
  by (simp add: is_nan_def is_inf_def)

lemma not_finite_class: "f_exponent w = 255 \<Longrightarrow> is_nan w \<or> is_inf w"
  by (auto simp add: is_nan_def is_inf_def)

lemma f_val_f_encode:
  "f_val (f_encode neg (round_nearest_even 0 M)) =
     (if neg then - int (if 2 ^ 277 \<le> round_nearest_even 0 M then 2 ^ 277 else round_nearest_even 0 M)
      else int (if 2 ^ 277 \<le> round_nearest_even 0 M then 2 ^ 277 else round_nearest_even 0 M))"
  unfolding f_val_def f_negative_f_encode f_mag_f_encode_round ..

lemma f_val_zero: "f_val 0 = 0" "f_val 0x80000000 = 0" "\<not> is_nan 0" "\<not> is_nan 0x80000000"
  by (simp_all add: f_val_def f_mag_def f_exponent_def f_fraction_def f_abs_bits_def is_nan_def)

text \<open>The sum of two finite floats: never a NaN, and the rounded exact sum (or an infinity).\<close>

lemma f_add_finite:
  assumes "f_exponent a \<noteq> 255" and "f_exponent b \<noteq> 255"
  shows "\<not> is_nan (f_add a b)"
    and "f_val (f_add a b) =
      (if f_val a + f_val b < 0
       then - int (if 2 ^ 277 \<le> round_nearest_even 0 (nat \<bar>f_val a + f_val b\<bar>) then 2 ^ 277
                   else round_nearest_even 0 (nat \<bar>f_val a + f_val b\<bar>))
       else int (if 2 ^ 277 \<le> round_nearest_even 0 (nat \<bar>f_val a + f_val b\<bar>) then 2 ^ 277
                 else round_nearest_even 0 (nat \<bar>f_val a + f_val b\<bar>)))"
proof -
  have c: "\<not> is_nan a" "\<not> is_inf a" "\<not> is_nan b" "\<not> is_inf b"
    using assms finite_class by blast+
  have z: "round_nearest_even 0 0 = 0"
    by (simp add: round_nearest_even_def)
  show "\<not> is_nan (f_add a b)"
    by (simp add: f_add_def c Let_def is_nan_f_encode f_val_zero)
  show "f_val (f_add a b) =
      (if f_val a + f_val b < 0
       then - int (if 2 ^ 277 \<le> round_nearest_even 0 (nat \<bar>f_val a + f_val b\<bar>) then 2 ^ 277
                   else round_nearest_even 0 (nat \<bar>f_val a + f_val b\<bar>))
       else int (if 2 ^ 277 \<le> round_nearest_even 0 (nat \<bar>f_val a + f_val b\<bar>) then 2 ^ 277
                 else round_nearest_even 0 (nat \<bar>f_val a + f_val b\<bar>)))"
  proof (cases "f_val a + f_val b = 0")
    case True
    then show ?thesis
      by (simp add: f_add_def c Let_def f_val_zero z)
  next
    case False
    then show ?thesis
      by (simp add: f_add_def c Let_def f_val_f_encode)
  qed
qed

section \<open>IEEE-754 facts: subtracting a damage\<close>

lemma f_ge_zero_val:
  assumes "f_ge a 0"
  shows "\<not> is_nan a" and "f_val a = int (f_mag a)"
proof -
  from assms have n: "\<not> is_nan a" and v: "0 \<le> f_val a"
    by (simp_all add: f_ge_def f_le_def f_val_zero)
  show "\<not> is_nan a" by (rule n)
  from v show "f_val a = int (f_mag a)"
    by (simp add: f_val_def split: if_splits)
qed

text \<open>
  Taking a finite damage that is not negative from hit points that are not negative
  gives no NaN and no more than the hit points were.
\<close>

lemma f_sub_damage:
  assumes "f_ge h 0" and "f_ge d 0" and "\<not> is_inf d"
  shows "\<not> is_nan (f_sub h d)" and "f_val (f_sub h d) \<le> f_val h"
proof -
  have hn: "\<not> is_nan h" and hv: "f_val h = int (f_mag h)"
    using f_ge_zero_val [OF assms(1)] by simp_all
  have dn: "\<not> is_nan d" and dv: "f_val d = int (f_mag d)"
    using f_ge_zero_val [OF assms(2)] by simp_all
  have dfin: "f_exponent (f_neg d) \<noteq> 255"
    using not_finite_class [of d] dn assms(3) by (auto simp add: f_neg_class)
  have nd: "\<not> is_nan (f_neg d)" "\<not> is_inf (f_neg d)"
    using dn assms(3) by (simp_all add: f_neg_class)
  have "\<not> is_nan (f_sub h d) \<and> f_val (f_sub h d) \<le> f_val h"
  proof (cases "f_exponent h = 255")
    case True
    with hn have "is_inf h"
      using not_finite_class [of h] by simp
    then have "f_sub h d = h"
      by (simp add: f_sub_def f_add_def hn nd)
    with hn show ?thesis
      by simp
  next
    case False
    let ?v = "f_val h + f_val (f_neg d)"
    let ?R = "round_nearest_even 0 (nat \<bar>?v\<bar>)"
    have nn: "\<not> is_nan (f_sub h d)"
      unfolding f_sub_def using False dfin by (rule f_add_finite(1))
    have val: "f_val (f_sub h d) =
        (if ?v < 0 then - int (if 2 ^ 277 \<le> ?R then 2 ^ 277 else ?R)
         else int (if 2 ^ 277 \<le> ?R then 2 ^ 277 else ?R))"
      unfolding f_sub_def using False dfin by (rule f_add_finite(2))
    have "f_val (f_sub h d) \<le> f_val h"
    proof (cases "?v < 0")
      case True
      then have "f_val (f_sub h d) \<le> 0"
        by (simp add: val)
      also have "0 \<le> f_val h"
        by (simp add: hv)
      finally show ?thesis .
    next
      case False
      have "nat \<bar>?v\<bar> \<le> f_mag h"
        using False by (simp add: hv dv f_neg_class)
      then have R: "?R \<le> f_mag h"
        using finite_mag(2) [OF \<open>f_exponent h \<noteq> 255\<close>] by (rule rne_le_representable)
      also have "f_mag h < 2 ^ 277"
        by (rule finite_mag(1) [OF \<open>f_exponent h \<noteq> 255\<close>])
      finally have "\<not> 2 ^ 277 \<le> ?R"
        by simp
      with False R show ?thesis
        by (simp add: val hv)
    qed
    with nn show ?thesis ..
  qed
  then show "\<not> is_nan (f_sub h d)" and "f_val (f_sub h d) \<le> f_val h"
    by simp_all
qed

section \<open>IEEE-754 facts: a bounded walk\<close>

lemma f_add_finite_bits:
  assumes "f_exponent a \<noteq> 255" and "f_exponent b \<noteq> 255"
  shows "f_add a b =
     (if f_val a + f_val b = 0 then (if f_negative a \<and> f_negative b then 0x80000000 else 0)
      else f_encode (f_val a + f_val b < 0) (round_nearest_even 0 (nat \<bar>f_val a + f_val b\<bar>)))"
  using assms finite_class [of a] finite_class [of b]
  by (simp add: f_add_def Let_def)

lemma nonnan_bounded_finite:
  assumes "\<not> is_nan v" and "f_mag v < 2 ^ 277"
  shows "f_exponent v \<noteq> 255"
proof
  assume "f_exponent v = 255"
  with assms(1) have "is_inf v"
    using not_finite_class [of v] by simp
  then have "f_mag v = 2 ^ 277"
    by (rule inf_mag)
  with assms(2) show False
    by simp
qed

lemma f_mag_abs_val: "int (f_mag v) = \<bar>f_val v\<bar>"
  by (simp add: f_val_def)

text \<open>
  Below 32 in magnitude (\<open>2\<^sup>1\<^sup>5\<^sup>4\<close> units) a sum is off the exact one by \<open>2\<^sup>1\<^sup>2\<^sup>9\<close> units
  at most, half a unit in the last place of the numbers between 16 and 32.
\<close>

lemma f_add_error:
  assumes "f_exponent a \<noteq> 255" and "f_exponent b \<noteq> 255"
    and "\<bar>f_val a + f_val b\<bar> < 2 ^ 154"
  shows "\<bar>f_val (f_add a b) - (f_val a + f_val b)\<bar> \<le> 2 ^ 129"
proof -
  define M where "M = nat \<bar>f_val a + f_val b\<bar>"
  define R where "R = round_nearest_even 0 M"
  have M: "M < 2 ^ 154"
    using assms(3) by (simp add: M_def nat_less_iff)
  then have "floorlog 2 M \<le> 154"
    by (simp add: floorlog_le_iff)
  then have "(2::nat) ^ (floorlog 2 M - 24) \<le> 2 ^ 130"
    by (intro power_increasing) simp_all
  with rne_error [of M] have e: "2 * R \<le> 2 * M + 2 ^ 130" "2 * M \<le> 2 * R + 2 ^ 130"
    by (simp_all add: R_def)
  then have R: "\<not> 2 ^ 277 \<le> R"
    using M by simp
  have "f_val (f_add a b) =
      (if f_val a + f_val b < 0 then - int (if 2 ^ 277 \<le> R then 2 ^ 277 else R)
       else int (if 2 ^ 277 \<le> R then 2 ^ 277 else R))"
    unfolding R_def M_def by (rule f_add_finite(2) [OF assms(1,2)])
  then have val: "f_val (f_add a b) = (if f_val a + f_val b < 0 then - int R else int R)"
    unfolding if_not_P [OF R] .
  have d: "\<bar>int R - int M\<bar> \<le> 2 ^ 129"
    using e by simp
  have m: "int M = \<bar>f_val a + f_val b\<bar>"
    by (simp add: M_def)
  show ?thesis
  proof (cases "f_val a + f_val b < 0")
    case True
    then have "f_val (f_add a b) - (f_val a + f_val b) = int M - int R"
      using val m by simp
    with d show ?thesis
      by simp
  next
    case False
    then have "f_val (f_add a b) - (f_val a + f_val b) = int R - int M"
      using val m by simp
    with d show ?thesis
      by simp
  qed
qed

lemma std_clamp_cases:
  assumes "\<not> is_nan v" and "\<not> is_nan lo" and "\<not> is_nan hi" and "f_val lo \<le> f_val hi"
  shows "f_val (std_clamp v lo hi) = max (f_val lo) (min (f_val hi) (f_val v))"
    and "std_clamp v lo hi = lo \<or> std_clamp v lo hi = hi \<or> std_clamp v lo hi = v"
    and "\<not> is_nan (std_clamp v lo hi)"
  using assms by (auto simp add: std_clamp_def f_lt_def)


lemma arena_val:
  "f_val ARENA_HALF_SIZE = 5 * 2 ^ 151" "\<not> is_nan ARENA_HALF_SIZE"
  "f_encode False (5 * 2 ^ 151) = ARENA_HALF_SIZE"
  "f_encode True (5 * 2 ^ 151) = f_neg ARENA_HALF_SIZE"
  by (simp_all add: ARENA_HALF_SIZE_def f_eval)

lemma in_arena_val: "in_arena v \<longleftrightarrow> \<not> is_nan v \<and> \<bar>f_val v\<bar> \<le> 5 * 2 ^ 151"
  by (auto simp add: in_arena_def f_le_def f_neg_class arena_val)

lemma in_arena_finite: "in_arena v \<Longrightarrow> f_exponent v \<noteq> 255"
proof (rule nonnan_bounded_finite)
  assume a: "in_arena v"
  then show "\<not> is_nan v"
    by (simp add: in_arena_val)
  from a have "int (f_mag v) < 2 ^ 277"
    unfolding f_mag_abs_val by (simp add: in_arena_val)
  then show "f_mag v < 2 ^ 277"
    by (metis of_nat_less_iff of_nat_numeral of_nat_power)
qed


text \<open>
  One coordinate pushed by \<open>c\<close>, \<open>\<sigma>\<close> times \<open>11184811 \<sqdot> 2\<^sup>1\<^sup>2\<^sup>2\<close> units, and clamped: it stays
  in the arena and moves by \<open>11184683 \<sqdot> 2\<^sup>1\<^sup>2\<^sup>2\<close> units at least in the direction \<open>\<sigma>\<close>, unless
  it reaches the wall; at the wall it is the wall's own bit pattern.
\<close>

lemma advance_step:
  fixes \<sigma> :: int
  assumes s: "\<sigma> = 1 \<or> \<sigma> = - 1" and c: "f_exponent c \<noteq> 255"
    and cv: "f_val c = \<sigma> * (11184811 * 2 ^ 122)" and v: "in_arena v"
  shows "in_arena (advance c v)"
    and "min (5 * 2 ^ 151) (\<sigma> * f_val v + 11184683 * 2 ^ 122) \<le> \<sigma> * f_val (advance c v)"
    and "\<sigma> * f_val (advance c v) = 5 * 2 ^ 151 \<Longrightarrow>
      advance c v = (if \<sigma> = 1 then ARENA_HALF_SIZE else f_neg ARENA_HALF_SIZE)"
proof -
  define w where "w = f_add v c"
  define r where "r = advance c v"
  define A :: int where "A = 5 * 2 ^ 151"
  define C :: int where "C = 11184811 * 2 ^ 122"
  define S where "S = f_val v + f_val c"
  have fv: "f_exponent v \<noteq> 255"
    using v by (rule in_arena_finite)
  have b: "\<bar>f_val v\<bar> \<le> A"
    using v by (simp add: in_arena_val A_def)
  have AC: "A + C < 2 ^ 154" "A + 2 ^ 129 < 2 ^ 277" "0 < A" "2 ^ 129 < C" "(0::int) < 2 ^ 129"
    "0 < C"
    by (simp_all add: A_def C_def)
  have cC: "f_val c = \<sigma> * C"
    using cv by (simp add: C_def)
  have sum: "\<bar>S\<bar> < 2 ^ 154"
    using s b cC AC(1,6) unfolding S_def by auto
  have err: "\<bar>f_val w - S\<bar> \<le> 2 ^ 129"
    unfolding w_def S_def using fv c sum [unfolded S_def] by (rule f_add_error)
  have nw: "\<not> is_nan w"
    unfolding w_def using fv c by (rule f_add_finite(1))
  have lh: "\<not> is_nan (f_neg ARENA_HALF_SIZE)" "\<not> is_nan ARENA_HALF_SIZE"
    "f_val (f_neg ARENA_HALF_SIZE) = - A" "f_val ARENA_HALF_SIZE = A"
    by (simp_all add: f_neg_class arena_val A_def)
  have le: "f_val (f_neg ARENA_HALF_SIZE) \<le> f_val ARENA_HALF_SIZE"
    using AC(3) by (simp add: lh)
  have r: "r = std_clamp w (f_neg ARENA_HALF_SIZE) ARENA_HALF_SIZE"
    by (simp add: r_def advance_def w_def)
  have rv: "f_val r = max (- A) (min A (f_val w))"
    unfolding r using std_clamp_cases(1) [OF nw lh(1,2) le] by (simp add: lh)
  have rc: "r = f_neg ARENA_HALF_SIZE \<or> r = ARENA_HALF_SIZE \<or> r = w"
    unfolding r by (rule std_clamp_cases(2) [OF nw lh(1,2) le])
  have rn: "\<not> is_nan r"
    unfolding r by (rule std_clamp_cases(3) [OF nw lh(1,2) le])
  have "\<bar>f_val r\<bar> \<le> A"
    using AC(3) unfolding rv by (auto simp add: max_def min_def)
  with rn show "in_arena (advance c v)"
    by (simp add: in_arena_val r_def A_def)
  have "min A (\<sigma> * f_val v + (C - 2 ^ 129)) \<le> \<sigma> * f_val r"
    using s err cC AC(3) unfolding rv S_def by (auto simp add: max_def min_def)
  then show "min (5 * 2 ^ 151) (\<sigma> * f_val v + 11184683 * 2 ^ 122) \<le> \<sigma> * f_val (advance c v)"
    by (simp add: A_def C_def r_def)
  show "advance c v = (if \<sigma> = 1 then ARENA_HALF_SIZE else f_neg ARENA_HALF_SIZE)"
    if top: "\<sigma> * f_val (advance c v) = 5 * 2 ^ 151"
  proof -
    from top have t: "\<sigma> * f_val r = A"
      by (simp add: r_def A_def)
    have wenc: "w = f_encode (\<sigma> = - 1) (nat A)" if "r = w"
    proof -
      from t that have tw: "\<sigma> * f_val w = A"
        by simp
      define R where "R = round_nearest_even 0 (nat \<bar>S\<bar>)"
      have S0: "S \<noteq> 0"
      proof
        assume "S = 0"
        then have "f_val w = 0"
          using f_add_finite_bits [OF fv c] by (simp add: w_def S_def f_val_zero)
        with tw AC(3) show False
          by simp
      qed
      then have wb: "w = f_encode (S < 0) R"
        using f_add_finite_bits [OF fv c] by (simp add: w_def S_def R_def)
      have wv: "f_val w = (if S < 0 then - int (if 2 ^ 277 \<le> R then 2 ^ 277 else R)
          else int (if 2 ^ 277 \<le> R then 2 ^ 277 else R))"
        unfolding R_def S_def w_def by (rule f_add_finite(2) [OF fv c])
      have A277: "A < 2 ^ 277"
        using AC(2,5) by simp
      have "(S < 0) = (\<sigma> = - 1) \<and> int R = A"
        using s tw AC(3) A277 unfolding wv by (auto split: if_splits)
      then have "(S < 0) = (\<sigma> = - 1)" and "R = nat A"
        by (blast, metis nat_int)
      then show ?thesis
        using wb by simp
    qed
    have enc: "f_encode False (nat A) = ARENA_HALF_SIZE" "f_encode True (nat A) = f_neg ARENA_HALF_SIZE"
      using arena_val(3,4) by (simp_all add: A_def nat_mult_distrib nat_power_eq)
    show ?thesis
    proof (cases "\<sigma> = 1")
      case True
      then have "f_val r = A"
        using t by simp
      then have "r \<noteq> f_neg ARENA_HALF_SIZE"
        using lh(3) AC(3) by auto
      with rc wenc True enc show ?thesis
        unfolding r_def by auto
    next
      case False
      then have m: "\<sigma> = - 1"
        using s by simp
      then have "f_val r = - A"
        using t by simp
      then have "r \<noteq> ARENA_HALF_SIZE"
        using lh(4) AC(3) by auto
      with rc wenc m enc show ?thesis
        unfolding r_def by auto
    qed
  qed
qed


lemma advance_walk:
  fixes \<sigma> :: int
  assumes s: "\<sigma> = 1 \<or> \<sigma> = - 1" and c: "f_exponent c \<noteq> 255"
    and cv: "f_val c = \<sigma> * (11184811 * 2 ^ 122)" and v: "in_arena v"
  shows "in_arena ((advance c ^^ n) v) \<and>
    min (5 * 2 ^ 151) (\<sigma> * f_val v + int n * (11184683 * 2 ^ 122))
      \<le> \<sigma> * f_val ((advance c ^^ n) v)"
proof (induction n)
  case 0
  show ?case
    using v by simp
next
  case (Suc n)
  define u where "u = (advance c ^^ n) v"
  define D :: int where "D = 11184683 * 2 ^ 122"
  define A :: int where "A = 5 * 2 ^ 151"
  have D: "0 < D"
    by (simp add: D_def)
  from Suc have u: "in_arena u" and ih: "min A (\<sigma> * f_val v + int n * D) \<le> \<sigma> * f_val u"
    by (simp_all add: u_def D_def A_def)
  have st: "min A (\<sigma> * f_val u + D) \<le> \<sigma> * f_val (advance c u)"
    using advance_step(2) [OF s c cv u] by (simp add: D_def A_def)
  have "int (Suc n) * D = int n * D + D"
    by (simp add: algebra_simps)
  then have "min A (\<sigma> * f_val v + int (Suc n) * D) \<le> \<sigma> * f_val (advance c u)"
    using ih st D by (simp add: min_def split: if_splits)
  then show ?case
    using advance_step(1) [OF s c cv u] by (simp add: u_def D_def A_def)
qed

text \<open>
  \<open>481 \<sqdot> 11184683 \<sqdot> 2\<^sup>1\<^sup>2\<^sup>2\<close> units are more than the width of the arena, \<open>10 \<sqdot> 2\<^sup>1\<^sup>5\<^sup>1\<close> units: from
  anywhere in the arena 481 steps end at the wall.
\<close>

lemma advance_reaches:
  fixes \<sigma> :: int
  assumes s: "\<sigma> = 1 \<or> \<sigma> = - 1" and c: "f_exponent c \<noteq> 255"
    and cv: "f_val c = \<sigma> * (11184811 * 2 ^ 122)" and v: "in_arena v" and n: "481 \<le> n"
  shows "(advance c ^^ n) v = (if \<sigma> = 1 then ARENA_HALF_SIZE else f_neg ARENA_HALF_SIZE)"
proof -
  from n obtain k where k: "n = Suc k"
    by (cases n) simp_all
  define u where "u = (advance c ^^ k) v"
  define D :: int where "D = 11184683 * 2 ^ 122"
  define A :: int where "A = 5 * 2 ^ 151"
  have u: "in_arena u"
    unfolding u_def using advance_walk [OF s c cv v] by blast
  have r: "(advance c ^^ n) v = advance c u"
    by (simp add: k u_def)
  have w: "min A (\<sigma> * f_val v + int n * D) \<le> \<sigma> * f_val (advance c u)"
    using advance_walk [OF s c cv v, of n] by (simp add: r D_def A_def)
  have "- A \<le> \<sigma> * f_val v"
    using s v by (auto simp add: in_arena_val A_def)
  moreover have "481 * D \<le> int n * D"
    using n by (intro mult_right_mono) (simp_all add: D_def)
  moreover have "2 * A \<le> 481 * D"
    by (simp add: A_def D_def)
  ultimately have "A \<le> \<sigma> * f_val (advance c u)"
    using w by (simp add: min_def split: if_splits)
  moreover have "\<sigma> * f_val (advance c u) \<le> A"
    using s advance_step(1) [OF s c cv u] by (auto simp add: in_arena_val A_def)
  ultimately have "\<sigma> * f_val (advance c u) = 5 * 2 ^ 151"
    by (simp add: A_def)
  then show ?thesis
    unfolding r by (rule advance_step(3) [OF s c cv u])
qed

lemma step_vals:
  "f_exponent 0x3DAAAAAB \<noteq> 255" "f_val 0x3DAAAAAB = 1 * (11184811 * 2 ^ 122)"
  "f_exponent 0xBDAAAAAB \<noteq> 255" "f_val 0xBDAAAAAB = - 1 * (11184811 * 2 ^ 122)"
  by (simp_all add: f_eval)

lemma advance_reaches_east:
  assumes "in_arena v" and "481 \<le> n"
  shows "(advance 0x3DAAAAAB ^^ n) v = ARENA_HALF_SIZE"
  using advance_reaches [OF _ step_vals(1,2) assms, of ] by simp

lemma advance_reaches_west:
  assumes "in_arena v" and "481 \<le> n"
  shows "(advance 0xBDAAAAAB ^^ n) v = f_neg ARENA_HALF_SIZE"
  using advance_reaches [OF _ step_vals(3,4) assms] by simp

section \<open>The codec\<close>

text \<open>
  C2, as the claim states it for \<^verbatim>\<open>InputState\<close>, fails: the decoded value of
  \<open>nan_input\<close> holds the same bits, and \<^verbatim>\<open>operator==\<close> still answers false, because it
  compares \<^verbatim>\<open>moveX\<close> with the float \<^verbatim>\<open>==\<close> and a NaN is not equal to itself.
\<close>

theorem codec_roundtrip_nan_counterexample:
  "\<not> InputState_eq
       (InputState_Deserialize LittleEndian (InputState_Serialize LittleEndian nan_input) 13
          InputState_default)
       nan_input"
  by (simp add: InputState_roundtrip InputState_eq_def nan_input_def f_eq_def is_nan_def
      f_exponent_def f_fraction_def f_abs_bits_def)

text \<open>
  C2, amended: decoding the bytes that \<^verbatim>\<open>Serialize\<close> wrote gives back every field with the
  bits it had, for every \<^verbatim>\<open>InputState\<close> and for every \<^verbatim>\<open>GameState\<close> of at most 65535
  projectiles, in either byte order and whatever the object decoded into held before;
  \<^verbatim>\<open>InputState::operator==\<close> holds between the decoded input and the original exactly
  when neither \<^verbatim>\<open>moveX\<close> nor \<^verbatim>\<open>moveY\<close> is a NaN.
\<close>

theorem codec_roundtrip:
  "InputState_Deserialize en (InputState_Serialize en i) (length (InputState_Serialize en i)) this_i = i
   \<and> InputState_eq
        (InputState_Deserialize en (InputState_Serialize en i) (length (InputState_Serialize en i)) this_i) i
      = (\<not> is_nan (moveX i) \<and> \<not> is_nan (moveY i))
   \<and> (length (projectiles s) \<le> 65535 \<longrightarrow>
        GameState_Deserialize en (GameState_Serialize en s) sz this_s = s)"
  by (simp add: length_InputState_Serialize InputState_roundtrip GameState_roundtrip
      InputState_eq_def f_eq_def)

theorem codec_roundtrip_witness:
  "length (projectiles (GameState_default\<lparr>projectiles := [ProjectileState_default]\<rparr>)) \<le> 65535
   \<and> GameState_Deserialize BigEndian
        (GameState_Serialize BigEndian (GameState_default\<lparr>projectiles := [ProjectileState_default]\<rparr>))
        0 GameState_default
      = GameState_default\<lparr>projectiles := [ProjectileState_default]\<rparr>
   \<and> InputState_eq
        (InputState_Deserialize BigEndian (InputState_Serialize BigEndian InputState_default)
           (length (InputState_Serialize BigEndian InputState_default)) nan_input)
        InputState_default"
proof -
  let ?s = "GameState_default\<lparr>projectiles := [ProjectileState_default]\<rparr>"
  have h: "length (projectiles ?s) \<le> 65535"
    by simp
  have n: "\<not> is_nan (moveX InputState_default) \<and> \<not> is_nan (moveY InputState_default)"
    by (simp add: InputState_default_def is_nan_def f_exponent_def f_fraction_def f_abs_bits_def)
  from h n codec_roundtrip [of BigEndian InputState_default nan_input ?s 0 GameState_default]
  show ?thesis
    by blast
qed

section \<open>Truncated input\<close>

text \<open>
  Which blocks of \<^verbatim>\<open>InputState::Deserialize\<close> run depends on \<^verbatim>\<open>size\<close> alone. The two
  axes and the frame number are read exactly when the buffer reaches the end of their
  place in the encoding (4, 8 and 13 bytes). The buttons byte is read for every size
  other than 0, 4 and 8: at offset 8, its place, from 9 bytes on, but at offset 4 for
  5 to 7 bytes and at offset 0 for 1 to 3 bytes, where the bytes of an axis lie.
\<close>

lemma InputState_Deserialize_fields:
  "InputState_Deserialize en buffer sz this =
     this\<lparr> moveX := (if 4 \<le> sz then u32_of_bytes en (mem_read buffer 0 4) else moveX this),
           moveY := (if 8 \<le> sz then u32_of_bytes en (mem_read buffer 4 4) else moveY this),
           throwProjectile :=
             (if 9 \<le> sz then hd (mem_read buffer 8 1) AND 1 \<noteq> 0
              else if 5 \<le> sz \<and> sz < 8 then hd (mem_read buffer 4 1) AND 1 \<noteq> 0
              else if 1 \<le> sz \<and> sz < 4 then hd (mem_read buffer 0 1) AND 1 \<noteq> 0
              else throwProjectile this),
           InputState.frameNumber :=
             (if 13 \<le> sz then u32_of_bytes en (mem_read buffer 9 4)
              else InputState.frameNumber this) \<rparr>"
  by (simp add: InputState_Deserialize_def Let_def)

text \<open>
  C6 at a one-byte payload holding \<^verbatim>\<open>0x01\<close>, decoded into a fresh \<^verbatim>\<open>InputState\<close>: the
  byte is the first byte of \<^verbatim>\<open>moveX\<close> in the encoding, and the buttons byte (offset 8)
  is missing, yet the decoder takes the byte for the buttons and sets
  \<^verbatim>\<open>throwProjectile\<close>; the other three fields keep their defaults.
\<close>

theorem InputState_Deserialize_one_byte:
  "InputState_Deserialize en [1] 1 InputState_default
     = InputState_default\<lparr>throwProjectile := True\<rparr>"
  by (simp add: InputState_Deserialize_def Let_def mem_read_def InputState_default_def)

section \<open>The engine: what each stage touches\<close>

lemma fst_UpdatePlayer: "fst (UpdatePlayer m this p i k) = this"
  by (simp add: UpdatePlayer_def Let_def)

lemma snd_UpdatePlayer:
  "snd (UpdatePlayer m this p i k) = snd (UpdatePlayer m GameSimulation_default p i k)"
  by (simp add: UpdatePlayer_def Let_def)

lemma fst_UpdateProjectiles: "fst (UpdateProjectiles this s) = this"
  by (simp add: UpdateProjectiles_def Let_def)

lemma snd_UpdateProjectiles:
  "snd (UpdateProjectiles this s) = s\<lparr>projectiles := filter active (map move_projectile (projectiles s))\<rparr>"
  by (simp add: UpdateProjectiles_def Let_def)

lemma fst_CheckCollisions: "fst (CheckCollisions m this s) = this"
  by (simp add: CheckCollisions_def Let_def split: prod.splits)

lemma snd_CheckCollisions:
  "snd (CheckCollisions m this s) =
     s\<lparr>players := fst (collide_all m (players s) (projectiles s)),
       projectiles := snd (collide_all m (players s) (projectiles s))\<rparr>"
  by (simp add: CheckCollisions_def Let_def split: prod.splits)

lemma fst_CheckWinConditions: "fst (CheckWinConditions this s) = this"
  by (simp add: CheckWinConditions_def Let_def)

lemma snd_CheckWinConditions:
  "snd (CheckWinConditions this s) = snd (CheckWinConditions GameSimulation_default s)"
  by (simp add: CheckWinConditions_def Let_def)

lemma Update_fst: "fst (Update m this s i0 i1) = this"
  by (simp add: Update_def Let_def split_def fst_UpdatePlayer fst_UpdateProjectiles
      fst_CheckCollisions fst_CheckWinConditions)

lemma Update_snd:
  "snd (Update m this s i0 i1)
     = snd (CheckWinConditions GameSimulation_default (collision_stage m s i0 i1))"
  unfolding Update_def Let_def split_def fst_UpdatePlayer fst_UpdateProjectiles
      fst_CheckCollisions fst_CheckWinConditions snd_UpdateProjectiles snd_CheckCollisions
  by (simp add: snd_CheckWinConditions [of this] snd_UpdatePlayer [of m this]
      collision_stage_def timer_stage_def Let_def set_player_def player_at_def)

lemma UpdatePlayer_dead: "\<not> alive p \<Longrightarrow> snd (UpdatePlayer m this p i k) = p"
  by (simp add: UpdatePlayer_def)

lemma UpdatePlayer_keeps:
  "alive (snd (UpdatePlayer m this p i k)) = alive p"
  "hp (snd (UpdatePlayer m this p i k)) = hp p"
  "roundWins (snd (UpdatePlayer m this p i k)) = roundWins p"
  "PlayerState.velocity (snd (UpdatePlayer m this p i k)) = PlayerState.velocity p"
  by (simp_all add: UpdatePlayer_def Let_def)

lemma collide_with_dead:
  "\<not> alive (player_at ps j) \<Longrightarrow> player_at (fst (collide_with m ps proj i)) j = player_at ps j"
  by (auto simp add: collide_with_def Let_def player_at_def set_player_def)

lemma collide_projectile_dead:
  "\<not> alive (player_at ps j) \<Longrightarrow> player_at (fst (collide_projectile m ps proj)) j = player_at ps j"
  by (simp add: collide_projectile_def split_def Let_def collide_with_dead)

lemma fst_collide_all_Cons:
  "fst (collide_all m ps (proj # rest))
     = fst (collide_all m (fst (collide_projectile m ps proj)) rest)"
  by (simp add: split_def Let_def)

lemma collide_all_dead:
  "\<not> alive (player_at ps j) \<Longrightarrow> player_at (fst (collide_all m ps projs)) j = player_at ps j"
proof (induction projs arbitrary: ps)
  case Nil
  show ?case by simp
next
  case (Cons proj rest)
  have "player_at (fst (collide_projectile m ps proj)) j = player_at ps j"
    using Cons.prems by (rule collide_projectile_dead)
  with Cons show ?case
    by (simp add: fst_collide_all_Cons del: collide_all.simps)
qed

lemma same_but_hp_trans: "same_but_hp p q \<Longrightarrow> same_but_hp q r \<Longrightarrow> same_but_hp p r"
  by (simp add: same_but_hp_def)

lemma same_but_hp_refl: "same_but_hp p p"
  by (simp add: same_but_hp_def)

lemma collide_with_same:
  "same_but_hp (player_at (fst (collide_with m ps proj i)) j) (player_at ps j)"
  by (auto simp add: collide_with_def Let_def player_at_def set_player_def same_but_hp_def)

lemma collide_projectile_same:
  "same_but_hp (player_at (fst (collide_projectile m ps proj)) j) (player_at ps j)"
  unfolding collide_projectile_def split_def Let_def
  by (auto intro: same_but_hp_refl collide_with_same
      same_but_hp_trans [OF collide_with_same collide_with_same])

lemma collide_all_same:
  "same_but_hp (player_at (fst (collide_all m ps projs)) j) (player_at ps j)"
proof (induction projs arbitrary: ps)
  case Nil
  show ?case by (simp add: same_but_hp_refl)
next
  case (Cons proj rest)
  show ?case
    using Cons.IH [of "fst (collide_projectile m ps proj)"] collide_projectile_same [of m ps proj j]
    by (simp add: fst_collide_all_Cons del: collide_all.simps) (rule same_but_hp_trans)
qed

text \<open>\<^verbatim>\<open>CheckWinConditions\<close>, branch by branch: it changes one \<^verbatim>\<open>roundWins\<close> or nothing.\<close>

lemma CheckWinConditions_players:
  "players (snd (CheckWinConditions this s)) =
     (if \<not> alive (player_at (players s) 0)
      then set_player (players s) 1
             ((player_at (players s) 1)\<lparr>roundWins := roundWins (player_at (players s) 1) + 1\<rparr>)
      else if \<not> alive (player_at (players s) 1)
      then set_player (players s) 0
             ((player_at (players s) 0)\<lparr>roundWins := roundWins (player_at (players s) 0) + 1\<rparr>)
      else if f_le (roundTimer s) 0 \<and> f_gt (hp (player_at (players s) 0)) (hp (player_at (players s) 1))
      then set_player (players s) 0
             ((player_at (players s) 0)\<lparr>roundWins := roundWins (player_at (players s) 0) + 1\<rparr>)
      else if f_le (roundTimer s) 0 \<and> f_gt (hp (player_at (players s) 1)) (hp (player_at (players s) 0))
      then set_player (players s) 1
             ((player_at (players s) 1)\<lparr>roundWins := roundWins (player_at (players s) 1) + 1\<rparr>)
      else players s)"
  by (simp add: CheckWinConditions_def Let_def)

lemma CheckWinConditions_same:
  "(player_at (players (snd (CheckWinConditions this s))) j)\<lparr>roundWins := r\<rparr>
     = (player_at (players s) j)\<lparr>roundWins := r\<rparr>"
  by (simp add: CheckWinConditions_players player_at_def set_player_def)

lemma players_collision_stage:
  "players (collision_stage m s i0 i1) =
     fst (collide_all m
       (snd (UpdatePlayer m GameSimulation_default (player_at (players s) 0) i0 0),
        snd (UpdatePlayer m GameSimulation_default (player_at (players s) 1) i1 1))
       (filter active (map move_projectile (projectiles s))))"
  by (simp add: collision_stage_def Let_def)

section \<open>Determinism\<close>

lemma Update_eq:
  "Update m this s i0 i1
     = (this, snd (CheckWinConditions GameSimulation_default (collision_stage m s i0 i1)))"
  by (simp add: prod_eq_iff Update_fst Update_snd)

lemma run_Update_this:
  "run_Update m this s inputs = (this, snd (run_Update m this' s inputs))"
proof (induction inputs arbitrary: s)
  case Nil
  show ?case by simp
next
  case (Cons a inputs)
  obtain i0 i1 where a: "a = (i0, i1)"
    by (cases a)
  let ?s = "snd (CheckWinConditions GameSimulation_default (collision_stage m s i0 i1))"
  from Cons.IH [of ?s] show ?case
    by (simp add: a Update_eq)
qed

text \<open>
  C1: \<^verbatim>\<open>Update\<close> returns the engine object as it got it, and the state it returns is
  the same for every engine object, that is for every content of \<^verbatim>\<open>prevThrowPressed\<close>:
  on one platform the returned state is a function of the state and the two inputs
  alone. The same holds of the final state of a run over any sequence of input pairs.
\<close>

theorem Update_deterministic:
  "Update m this s i0 i1 = (this, snd (Update m this' s i0 i1))
   \<and> run_Update m this s inputs = (this, snd (run_Update m this' s inputs))"
proof
  show "Update m this s i0 i1 = (this, snd (Update m this' s i0 i1))"
    by (simp add: Update_eq)
  show "run_Update m this s inputs = (this, snd (run_Update m this' s inputs))"
    by (rule run_Update_this)
qed

theorem Update_deterministic_witness:
  "Update platform \<lparr>prevThrowPressed = (True, False)\<rparr> match_start nan_input InputState_default
     = (\<lparr>prevThrowPressed = (True, False)\<rparr>,
        snd (Update platform GameSimulation_default match_start nan_input InputState_default))
   \<and> run_Update platform \<lparr>prevThrowPressed = (True, False)\<rparr> match_start
        [(nan_input, InputState_default), (InputState_default, InputState_default)]
     = (\<lparr>prevThrowPressed = (True, False)\<rparr>,
        snd (run_Update platform GameSimulation_default match_start
          [(nan_input, InputState_default), (InputState_default, InputState_default)]))"
  by (rule Update_deterministic)

section \<open>Dead players\<close>

text \<open>
  C10: a player that is dead when \<^verbatim>\<open>Update\<close> is called comes out of it with the same
  position, velocity, facing angle, hit points, projectile cooldown and alive flag.
\<close>

theorem dead_player_frame:
  assumes "i < 2" and "\<not> alive (player_at (players s) i)"
  shows "PlayerState.position (player_at (players (snd (Update m this s i0 i1))) i)
           = PlayerState.position (player_at (players s) i)
         \<and> PlayerState.velocity (player_at (players (snd (Update m this s i0 i1))) i)
           = PlayerState.velocity (player_at (players s) i)
         \<and> facingAngle (player_at (players (snd (Update m this s i0 i1))) i)
           = facingAngle (player_at (players s) i)
         \<and> hp (player_at (players (snd (Update m this s i0 i1))) i)
           = hp (player_at (players s) i)
         \<and> projectileCooldown (player_at (players (snd (Update m this s i0 i1))) i)
           = projectileCooldown (player_at (players s) i)
         \<and> alive (player_at (players (snd (Update m this s i0 i1))) i)
           = alive (player_at (players s) i)"
proof -
  let ?p = "player_at (players s) i"
  let ?ps = "(snd (UpdatePlayer m GameSimulation_default (player_at (players s) 0) i0 0),
              snd (UpdatePlayer m GameSimulation_default (player_at (players s) 1) i1 1))"
  let ?c = "collision_stage m s i0 i1"
  from assms have moved: "player_at ?ps i = ?p"
    by (cases "i = 0") (simp_all add: player_at_def UpdatePlayer_dead)
  with assms have "\<not> alive (player_at ?ps i)"
    by simp
  then have "player_at (players ?c) i = player_at ?ps i"
    unfolding players_collision_stage by (rule collide_all_dead)
  with moved have c: "player_at (players ?c) i = ?p"
    by simp
  have "(player_at (players (snd (Update m this s i0 i1))) i)\<lparr>roundWins := 0\<rparr>
      = ?p\<lparr>roundWins := 0\<rparr>"
    using CheckWinConditions_same [where this = GameSimulation_default and s = ?c and j = i and r = 0]
    by (simp add: Update_snd c)
  then have "f ((player_at (players (snd (Update m this s i0 i1))) i)\<lparr>roundWins := 0\<rparr>)
      = f (?p\<lparr>roundWins := 0\<rparr>)" for f :: "PlayerState \<Rightarrow> 'a"
    by simp
  from this [of PlayerState.position] this [of PlayerState.velocity] this [of facingAngle]
    this [of hp] this [of projectileCooldown] this [of alive]
  show ?thesis
    by simp
qed

lemma player1_dead_is_dead: "\<not> alive (player_at (players player1_dead) 1)"
  by (simp add: player1_dead_def player_at_def set_player_def)

theorem dead_player_frame_witness:
  "(1::nat) < 2 \<and> \<not> alive (player_at (players player1_dead) 1)
   \<and> hp (player_at (players (snd (Update platform GameSimulation_default player1_dead
          InputState_default InputState_default))) 1)
       = hp (player_at (players player1_dead) 1)
   \<and> projectileCooldown (player_at (players (snd (Update platform GameSimulation_default
          player1_dead InputState_default InputState_default))) 1)
       = projectileCooldown (player_at (players player1_dead) 1)"
  using dead_player_frame [of 1 player1_dead platform GameSimulation_default
      InputState_default InputState_default] player1_dead_is_dead
  by simp

section \<open>Spawning a projectile\<close>

lemma cooldown_constant_positive: "f_gt PROJECTILE_COOLDOWN 0"
  by (simp add: PROJECTILE_COOLDOWN_def f_eval)

lemma spawn_offset_bits: "f_add (f_add PLAYER_RADIUS PROJECTILE_RADIUS) 0x3DCCCCCD = 0x3FCCCCCD"
  by (simp add: PLAYER_RADIUS_def PROJECTILE_RADIUS_def f_eval)

lemma player_at_set_player: "player_at (set_player ps i p) i = p"
  by (simp add: player_at_def set_player_def)

lemma SpawnProjectile_refuses:
  "\<not> alive (player_at (players s) i) \<or> f_gt (projectileCooldown (player_at (players s) i)) 0
     \<Longrightarrow> SpawnProjectile m s i = s"
  by (auto simp add: SpawnProjectile_def Let_def)

lemma SpawnProjectile_spawns:
  assumes "alive (player_at (players s) i)"
    and "\<not> f_gt (projectileCooldown (player_at (players s) i)) 0"
  shows "SpawnProjectile m s i =
     s\<lparr>projectiles := projectiles s @
          [\<lparr> ProjectileState.position =
               vec3_add (PlayerState.position (player_at (players s) i))
                 (vec3_scale
                    \<lparr> vec_x = std_sin m (glm_radians m (facingAngle (player_at (players s) i))),
                      vec_y = 0,
                      vec_z = f_neg (std_cos m (glm_radians m (facingAngle (player_at (players s) i)))) \<rparr>
                    (f_add (f_add PLAYER_RADIUS PROJECTILE_RADIUS) 0x3DCCCCCD)),
             ProjectileState.velocity =
               vec3_scale
                 \<lparr> vec_x = std_sin m (glm_radians m (facingAngle (player_at (players s) i))),
                   vec_y = 0,
                   vec_z = f_neg (std_cos m (glm_radians m (facingAngle (player_at (players s) i)))) \<rparr>
                 PROJECTILE_SPEED,
             ownerID = of_nat i,
             damage = PROJECTILE_DAMAGE,
             active = True \<rparr>],
       players := set_player (players s) i
          ((player_at (players s) i)\<lparr>projectileCooldown := PROJECTILE_COOLDOWN\<rparr>)\<rparr>"
  using assms by (simp add: SpawnProjectile_def Let_def ProjectileState_default_def)

text \<open>
  C7: \<^verbatim>\<open>SpawnProjectile(state, i)\<close> returns the state as it is when player \<open>i\<close> is dead
  or its cooldown is positive. Otherwise the result is the state with one projectile
  appended (owner \<open>i\<close>, damage \<^verbatim>\<open>PROJECTILE_DAMAGE\<close>, active, placed at the player's
  position plus the heading times \<^verbatim>\<open>PLAYER_RADIUS + PROJECTILE_RADIUS + 0.1f\<close>, moving
  with the heading times \<^verbatim>\<open>PROJECTILE_SPEED\<close>, the heading being
  \<open>(sin a, 0, - cos a)\<close> for the facing angle \<open>a\<close> in radians) and with the player's
  cooldown set to \<^verbatim>\<open>PROJECTILE_COOLDOWN\<close>; a second call right after is refused, so
  the two calls together add exactly one projectile.
\<close>

theorem SpawnProjectile_gating:
  assumes "i < 2"
  shows "(\<not> alive (player_at (players s) i) \<or> f_gt (projectileCooldown (player_at (players s) i)) 0
            \<longrightarrow> SpawnProjectile m s i = s)
       \<and> (alive (player_at (players s) i) \<and> \<not> f_gt (projectileCooldown (player_at (players s) i)) 0
            \<longrightarrow>
            SpawnProjectile m s i =
              s\<lparr>projectiles := projectiles s @
                   [\<lparr> ProjectileState.position =
                        vec3_add (PlayerState.position (player_at (players s) i))
                          (vec3_scale
                             \<lparr> vec_x = std_sin m (glm_radians m (facingAngle (player_at (players s) i))),
                               vec_y = 0,
                               vec_z = f_neg (std_cos m (glm_radians m (facingAngle (player_at (players s) i)))) \<rparr>
                             (f_add (f_add PLAYER_RADIUS PROJECTILE_RADIUS) 0x3DCCCCCD)),
                      ProjectileState.velocity =
                        vec3_scale
                          \<lparr> vec_x = std_sin m (glm_radians m (facingAngle (player_at (players s) i))),
                            vec_y = 0,
                            vec_z = f_neg (std_cos m (glm_radians m (facingAngle (player_at (players s) i)))) \<rparr>
                          PROJECTILE_SPEED,
                      ownerID = of_nat i,
                      damage = PROJECTILE_DAMAGE,
                      active = True \<rparr>],
                players := set_player (players s) i
                   ((player_at (players s) i)\<lparr>projectileCooldown := PROJECTILE_COOLDOWN\<rparr>)\<rparr>
            \<and> SpawnProjectile m (SpawnProjectile m s i) i = SpawnProjectile m s i
            \<and> length (projectiles (SpawnProjectile m (SpawnProjectile m s i) i))
                = length (projectiles s) + 1)"
proof (intro conjI impI)
  assume "\<not> alive (player_at (players s) i) \<or> f_gt (projectileCooldown (player_at (players s) i)) 0"
  then show "SpawnProjectile m s i = s"
    by (rule SpawnProjectile_refuses)
next
  assume a: "alive (player_at (players s) i) \<and> \<not> f_gt (projectileCooldown (player_at (players s) i)) 0"
  then have sp: "SpawnProjectile m s i = s\<lparr>projectiles := projectiles s @
                   [\<lparr> ProjectileState.position =
                        vec3_add (PlayerState.position (player_at (players s) i))
                          (vec3_scale
                             \<lparr> vec_x = std_sin m (glm_radians m (facingAngle (player_at (players s) i))),
                               vec_y = 0,
                               vec_z = f_neg (std_cos m (glm_radians m (facingAngle (player_at (players s) i)))) \<rparr>
                             (f_add (f_add PLAYER_RADIUS PROJECTILE_RADIUS) 0x3DCCCCCD)),
                      ProjectileState.velocity =
                        vec3_scale
                          \<lparr> vec_x = std_sin m (glm_radians m (facingAngle (player_at (players s) i))),
                            vec_y = 0,
                            vec_z = f_neg (std_cos m (glm_radians m (facingAngle (player_at (players s) i)))) \<rparr>
                          PROJECTILE_SPEED,
                      ownerID = of_nat i,
                      damage = PROJECTILE_DAMAGE,
                      active = True \<rparr>],
                players := set_player (players s) i
                   ((player_at (players s) i)\<lparr>projectileCooldown := PROJECTILE_COOLDOWN\<rparr>)\<rparr>"
    (is "_ = ?s'")
    by (simp add: SpawnProjectile_spawns)
  then show "SpawnProjectile m s i = ?s'" .
  have cd: "f_gt (projectileCooldown (player_at (players (SpawnProjectile m s i)) i)) 0"
    by (simp add: sp player_at_set_player cooldown_constant_positive)
  then show again: "SpawnProjectile m (SpawnProjectile m s i) i = SpawnProjectile m s i"
    by (simp add: SpawnProjectile_refuses)
  show "length (projectiles (SpawnProjectile m (SpawnProjectile m s i) i)) = length (projectiles s) + 1"
    by (simp only: again) (simp add: sp)
qed

lemma match_start_player0:
  "alive (player_at (players match_start) 0)"
  "projectileCooldown (player_at (players match_start) 0) = 0"
  "projectiles match_start = []"
  by (simp_all add: match_start_def ResetMatch_def ResetRound_def ResetRound_player_def Let_def
      player_at_def)

lemma f_gt_zero_zero: "\<not> f_gt 0 0"
  by (simp add: f_eval)

theorem SpawnProjectile_gating_witness:
  "(0::nat) < 2 \<and> (1::nat) < 2
   \<and> alive (player_at (players match_start) 0)
   \<and> \<not> f_gt (projectileCooldown (player_at (players match_start) 0)) 0
   \<and> length (projectiles (SpawnProjectile platform (SpawnProjectile platform match_start 0) 0)) = 1
   \<and> \<not> alive (player_at (players player1_dead) 1)
   \<and> SpawnProjectile platform player1_dead 1 = player1_dead"
proof -
  have i0: "(0::nat) < 2" and i1: "(1::nat) < 2"
    by simp_all
  have a: "alive (player_at (players match_start) 0)
      \<and> \<not> f_gt (projectileCooldown (player_at (players match_start) 0)) 0"
    by (simp add: match_start_player0 f_gt_zero_zero)
  have "length (projectiles (SpawnProjectile platform (SpawnProjectile platform match_start 0) 0))
      = length (projectiles match_start) + 1"
    using SpawnProjectile_gating [OF i0, of match_start platform] a by blast
  then have one: "length (projectiles (SpawnProjectile platform
      (SpawnProjectile platform match_start 0) 0)) = 1"
    by (simp add: match_start_player0)
  have refused: "SpawnProjectile platform player1_dead 1 = player1_dead"
    using SpawnProjectile_gating [OF i1, of player1_dead platform] player1_dead_is_dead by blast
  from a one refused player1_dead_is_dead show ?thesis
    by simp
qed

section \<open>Runs on the reference platform\<close>

lemma float_facts:
  "f_mul 0 0 = 0"
  "f_add 0 0 = 0"
  "f_sqrt 0 = 0"
  "\<not> f_gt 0 0x3C23D70A"
  "f_add ARENA_HALF_SIZE 0x40A00000 = 0x41C80000"
  "f_add PROJECTILE_RADIUS PLAYER_RADIUS = 0x3FC00000"
  "f_lt 0 0x3FC00000"
  "f_mul 0 FIXED_DT = 0"
  "f_sub 0x41200000 PROJECTILE_DAMAGE = 0"
  "f_le 0 0"
  "f_sub 0x40A00000 0x40A00000 = 0"
  "f_sub 0xC0A00000 0xC0A00000 = 0"
  "f_sub 0 0 = 0"
  "f_add 0x40A00000 0 = 0x40A00000"
  "f_add 0xC0A00000 0 = 0xC0A00000"
  "\<not> f_gt (f_abs 0x40A00000) 0x41C80000"
  "\<not> f_gt (f_abs 0xC0A00000) 0x41C80000"
  "\<not> f_gt (f_abs 0) 0x41C80000"
  "std_clamp 0x40A00000 (f_neg ARENA_HALF_SIZE) ARENA_HALF_SIZE = 0x40A00000"
  "std_clamp 0xC0A00000 (f_neg ARENA_HALF_SIZE) ARENA_HALF_SIZE = 0xC0A00000"
  "std_clamp 0 (f_neg ARENA_HALF_SIZE) ARENA_HALF_SIZE = 0"
  "\<not> f_gt 0 0"
  by (simp_all add: f_eval f_sqrt_def ARENA_HALF_SIZE_def PROJECTILE_RADIUS_def PLAYER_RADIUS_def
      FIXED_DT_bits PROJECTILE_DAMAGE_def)


lemma platform_length_zero:
  "glm_length platform \<lparr> vec_x = 0, vec_y = 0, vec_z = 0 \<rparr> = 0"
  by (simp add: platform_def ieee_platform_def glm_dot_def float_facts)

lemma low_hp_players:
  "player_at (players low_hp) 0 =
     \<lparr> PlayerState.position = \<lparr> vec_x = 0xC0A00000, vec_y = 0, vec_z = 0 \<rparr>,
       PlayerState.velocity = vec3_zero, facingAngle = 0, hp = 0x41200000,
       projectileCooldown = 0, roundWins = 0, alive = True \<rparr>"
  "player_at (players low_hp) 1 =
     \<lparr> PlayerState.position = \<lparr> vec_x = 0x40A00000, vec_y = 0, vec_z = 0 \<rparr>,
       PlayerState.velocity = vec3_zero, facingAngle = 0x43340000, hp = 0x41200000,
       projectileCooldown = 0, roundWins = 0, alive = True \<rparr>"
  by (simp_all add: low_hp_def match_start_def ResetMatch_def ResetRound_def ResetRound_player_def
      Let_def player_at_def GameState_default_def PlayerState_default_def)

text \<open>A player that stands in the arena, with no movement input and no cooldown, stays as it is.\<close>

lemma UpdatePlayer_idle:
  assumes "moveX i = 0" and "moveY i = 0"
    and "std_clamp (vec_x (PlayerState.position p)) (f_neg ARENA_HALF_SIZE) ARENA_HALF_SIZE
          = vec_x (PlayerState.position p)"
    and "std_clamp (vec_z (PlayerState.position p)) (f_neg ARENA_HALF_SIZE) ARENA_HALF_SIZE
          = vec_z (PlayerState.position p)"
    and "\<not> f_gt (projectileCooldown p) 0"
  shows "snd (UpdatePlayer platform this p i k) = p"
  using assms
  by (simp add: UpdatePlayer_def Let_def platform_length_zero float_facts)

lemma idle_input: "moveX InputState_default = 0" "moveY InputState_default = 0"
  by (simp_all add: InputState_default_def)

lemma low_hp_idle:
  "snd (UpdatePlayer platform this (player_at (players low_hp) 0) InputState_default k)
     = player_at (players low_hp) 0"
  "snd (UpdatePlayer platform this (player_at (players low_hp) 1) InputState_default k)
     = player_at (players low_hp) 1"
  unfolding low_hp_players
  by (rule UpdatePlayer_idle; simp add: idle_input float_facts)+

lemma shot_rests:
  "move_projectile (shot_at w \<lparr> vec_x = 0x40A00000, vec_y = 0, vec_z = 0 \<rparr>)
     = shot_at w \<lparr> vec_x = 0x40A00000, vec_y = 0, vec_z = 0 \<rparr>"
  "move_projectile (shot_at w \<lparr> vec_x = 0xC0A00000, vec_y = 0, vec_z = 0 \<rparr>)
     = shot_at w \<lparr> vec_x = 0xC0A00000, vec_y = 0, vec_z = 0 \<rparr>"
  by (simp_all add: move_projectile_def shot_at_def ProjectileState_default_def Let_def
      vec3_add_def vec3_scale_def vec3_zero_def float_facts)


lemma low_hp_projectiles:
  "projectiles last_hit = [shot_at 0 \<lparr> vec_x = 0x40A00000, vec_y = 0, vec_z = 0 \<rparr>]"
  "projectiles double_hit = [shot_at 0 \<lparr> vec_x = 0x40A00000, vec_y = 0, vec_z = 0 \<rparr>,
                            shot_at 1 \<lparr> vec_x = 0xC0A00000, vec_y = 0, vec_z = 0 \<rparr>]"
  "players last_hit = players low_hp"
  "players double_hit = players low_hp"
  unfolding last_hit_def double_hit_def low_hp_players
  by simp_all

lemma shot_active: "active (shot_at w pos)"
  by (simp add: shot_at_def ProjectileState_default_def)

text \<open>A projectile of player 0 lying on player 1, who has the hit points of one hit left.\<close>

lemma hit_player1:
  assumes "alive p1" and "hp p1 = 0x41200000"
    and "PlayerState.position p1 = \<lparr> vec_x = 0x40A00000, vec_y = 0, vec_z = 0 \<rparr>"
  shows "collide_projectile platform (p0, p1) (shot_at 0 \<lparr> vec_x = 0x40A00000, vec_y = 0, vec_z = 0 \<rparr>)
     = ((p0, p1\<lparr>hp := 0, alive := False\<rparr>),
        (shot_at 0 \<lparr> vec_x = 0x40A00000, vec_y = 0, vec_z = 0 \<rparr>)\<lparr>active := False\<rparr>)"
  using assms
  by (simp add: collide_projectile_def collide_with_def Let_def shot_at_def
      ProjectileState_default_def player_at_def set_player_def vec3_sub_def
      platform_length_zero float_facts)

lemma hit_player0:
  assumes "alive p0" and "hp p0 = 0x41200000"
    and "PlayerState.position p0 = \<lparr> vec_x = 0xC0A00000, vec_y = 0, vec_z = 0 \<rparr>"
  shows "collide_projectile platform (p0, p1) (shot_at 1 \<lparr> vec_x = 0xC0A00000, vec_y = 0, vec_z = 0 \<rparr>)
     = ((p0\<lparr>hp := 0, alive := False\<rparr>, p1),
        (shot_at 1 \<lparr> vec_x = 0xC0A00000, vec_y = 0, vec_z = 0 \<rparr>)\<lparr>active := False\<rparr>)"
  using assms
  by (simp add: collide_projectile_def collide_with_def Let_def shot_at_def
      ProjectileState_default_def player_at_def set_player_def vec3_sub_def
      platform_length_zero float_facts)

lemma players_low_hp_pair:
  "players low_hp = (player_at (players low_hp) 0, player_at (players low_hp) 1)"
  by (simp add: player_at_def)

lemma double_hit_collisions:
  "players (collision_stage platform double_hit InputState_default InputState_default)
     = ((player_at (players low_hp) 0)\<lparr>hp := 0, alive := False\<rparr>,
        (player_at (players low_hp) 1)\<lparr>hp := 0, alive := False\<rparr>)"
proof -
  let ?p0 = "player_at (players low_hp) 0" and ?p1 = "player_at (players low_hp) 1"
  have a: "collide_projectile platform (?p0, ?p1)
      (shot_at 0 \<lparr> vec_x = 0x40A00000, vec_y = 0, vec_z = 0 \<rparr>)
      = ((?p0, ?p1\<lparr>hp := 0, alive := False\<rparr>),
         (shot_at 0 \<lparr> vec_x = 0x40A00000, vec_y = 0, vec_z = 0 \<rparr>)\<lparr>active := False\<rparr>)"
    by (rule hit_player1) (simp_all add: low_hp_players del: One_nat_def)
  have b: "collide_projectile platform (?p0, ?p1\<lparr>hp := 0, alive := False\<rparr>)
      (shot_at 1 \<lparr> vec_x = 0xC0A00000, vec_y = 0, vec_z = 0 \<rparr>)
      = ((?p0\<lparr>hp := 0, alive := False\<rparr>, ?p1\<lparr>hp := 0, alive := False\<rparr>),
         (shot_at 1 \<lparr> vec_x = 0xC0A00000, vec_y = 0, vec_z = 0 \<rparr>)\<lparr>active := False\<rparr>)"
    by (rule hit_player0) (simp_all add: low_hp_players del: One_nat_def)
  show ?thesis
    unfolding players_collision_stage low_hp_projectiles low_hp_idle
    by (simp add: shot_rests shot_active a b del: One_nat_def)
qed

lemma last_hit_collisions:
  "players (collision_stage platform last_hit InputState_default InputState_default)
     = (player_at (players low_hp) 0,
        (player_at (players low_hp) 1)\<lparr>hp := 0, alive := False\<rparr>)"
  "projectiles (collision_stage platform last_hit InputState_default InputState_default)
     = [(shot_at 0 \<lparr> vec_x = 0x40A00000, vec_y = 0, vec_z = 0 \<rparr>)\<lparr>active := False\<rparr>]"
proof -
  let ?p0 = "player_at (players low_hp) 0" and ?p1 = "player_at (players low_hp) 1"
  have a: "collide_projectile platform (?p0, ?p1)
      (shot_at 0 \<lparr> vec_x = 0x40A00000, vec_y = 0, vec_z = 0 \<rparr>)
      = ((?p0, ?p1\<lparr>hp := 0, alive := False\<rparr>),
         (shot_at 0 \<lparr> vec_x = 0x40A00000, vec_y = 0, vec_z = 0 \<rparr>)\<lparr>active := False\<rparr>)"
    by (rule hit_player1) (simp_all add: low_hp_players del: One_nat_def)
  show "players (collision_stage platform last_hit InputState_default InputState_default)
     = (?p0, ?p1\<lparr>hp := 0, alive := False\<rparr>)"
    unfolding players_collision_stage low_hp_projectiles low_hp_idle
    by (simp add: shot_rests shot_active a del: One_nat_def)
  show "projectiles (collision_stage platform last_hit InputState_default InputState_default)
     = [(shot_at 0 \<lparr> vec_x = 0x40A00000, vec_y = 0, vec_z = 0 \<rparr>)\<lparr>active := False\<rparr>]"
    unfolding collision_stage_def Let_def low_hp_projectiles low_hp_idle
    by (simp add: shot_rests shot_active a del: One_nat_def)
qed


section \<open>Both players dead after the collisions\<close>

text \<open>
  With both players dead when \<^verbatim>\<open>CheckWinConditions\<close> runs, the search loop stops at
  player 0, so \<^verbatim>\<open>deadPlayer\<close> is 0 and \<^verbatim>\<open>winner\<close> is 1: player 1 gets the round.
\<close>

lemma both_dead_player1_wins:
  assumes "\<not> alive (player_at (players (collision_stage m s i0 i1)) 0)"
    and "\<not> alive (player_at (players (collision_stage m s i0 i1)) 1)"
  shows "players (snd (Update m this s i0 i1)) =
     set_player (players (collision_stage m s i0 i1)) 1
       ((player_at (players (collision_stage m s i0 i1)) 1)
          \<lparr>roundWins := roundWins (player_at (players (collision_stage m s i0 i1)) 1) + 1\<rparr>)"
  using assms by (simp add: Update_snd CheckWinConditions_players)

text \<open>
  C3 on \<open>double_hit\<close>: both players have the hit points of one hit left and each is hit
  in this tick. Both come out dead with 0 hit points, and player 1 comes out with one
  round win more than before, player 0 with none.
\<close>

theorem double_hit_awards_player1:
  "roundWins (player_at (players double_hit) 0) = 0
   \<and> roundWins (player_at (players double_hit) 1) = 0
   \<and> players (snd (Update platform GameSimulation_default double_hit
         InputState_default InputState_default))
      = ((player_at (players double_hit) 0)\<lparr>hp := 0, alive := False\<rparr>,
         (player_at (players double_hit) 1)\<lparr>hp := 0, alive := False, roundWins := 1\<rparr>)"
  by (simp add: Update_snd CheckWinConditions_players double_hit_collisions low_hp_projectiles
      player_at_def set_player_def)
     (simp add: low_hp_def match_start_def ResetMatch_def ResetRound_def ResetRound_player_def
      Let_def player_at_def)

section \<open>One round win for each call\<close>

lemma UpdatePlayer_roundWins_hp:
  "roundWins (snd (UpdatePlayer m this p i k)) = roundWins p"
  "alive (snd (UpdatePlayer m this p i k)) = alive p"
  by (simp_all add: UpdatePlayer_keeps)

lemma same_but_hp_roundWins: "same_but_hp p q \<Longrightarrow> roundWins p = roundWins q"
proof -
  assume "same_but_hp p q"
  then have "roundWins (p\<lparr>hp := 0, alive := False\<rparr>) = roundWins (q\<lparr>hp := 0, alive := False\<rparr>)"
    unfolding same_but_hp_def by (rule arg_cong)
  then show ?thesis by simp
qed

lemma roundWins_collision_stage:
  "roundWins (player_at (players (collision_stage m s i0 i1)) i)
     = roundWins (player_at (players s) i)"
proof -
  let ?ps = "(snd (UpdatePlayer m GameSimulation_default (player_at (players s) 0) i0 0),
              snd (UpdatePlayer m GameSimulation_default (player_at (players s) 1) i1 1))"
  let ?projs = "filter active (map move_projectile (projectiles s))"
  have "roundWins (player_at (fst (collide_all m ?ps ?projs)) i) = roundWins (player_at ?ps i)"
    by (rule same_but_hp_roundWins [OF collide_all_same])
  moreover have "roundWins (player_at ?ps i) = roundWins (player_at (players s) i)"
    by (cases "i = 0") (simp_all add: player_at_def UpdatePlayer_keeps)
  ultimately show ?thesis
    unfolding players_collision_stage by simp
qed

text \<open>A player who was alive and is dead has 0 hit points: dying sets them.\<close>

lemma collide_with_dead_hp:
  "alive (player_at ps j) \<or> hp (player_at ps j) = 0 \<Longrightarrow>
   alive (player_at (fst (collide_with m ps proj i)) j)
     \<or> hp (player_at (fst (collide_with m ps proj i)) j) = 0"
  by (auto simp add: collide_with_def Let_def player_at_def set_player_def)

lemma collide_projectile_dead_hp:
  "alive (player_at ps j) \<or> hp (player_at ps j) = 0 \<Longrightarrow>
   alive (player_at (fst (collide_projectile m ps proj)) j)
     \<or> hp (player_at (fst (collide_projectile m ps proj)) j) = 0"
  unfolding collide_projectile_def split_def Let_def
  using collide_with_dead_hp [of ps j m proj 0]
    collide_with_dead_hp [of "fst (collide_with m ps proj 0)" j m "fst (snd (collide_with m ps proj 0))" 1]
  by auto

lemma collide_all_dead_hp:
  "alive (player_at ps j) \<or> hp (player_at ps j) = 0 \<Longrightarrow>
   alive (player_at (fst (collide_all m ps projs)) j)
     \<or> hp (player_at (fst (collide_all m ps projs)) j) = 0"
proof (induction projs arbitrary: ps)
  case Nil
  then show ?case by simp
next
  case (Cons proj rest)
  from Cons.prems have "alive (player_at (fst (collide_projectile m ps proj)) j)
      \<or> hp (player_at (fst (collide_projectile m ps proj)) j) = 0"
    by (rule collide_projectile_dead_hp)
  then show ?case
    unfolding fst_collide_all_Cons by (rule Cons.IH)
qed

lemma alive_collision_stage_hp:
  assumes "i < 2" and "alive (player_at (players s) i)"
    and "\<not> alive (player_at (players (collision_stage m s i0 i1)) i)"
  shows "hp (player_at (players (collision_stage m s i0 i1)) i) = 0"
proof -
  let ?ps = "(snd (UpdatePlayer m GameSimulation_default (player_at (players s) 0) i0 0),
              snd (UpdatePlayer m GameSimulation_default (player_at (players s) 1) i1 1))"
  from assms(1,2) have "alive (player_at ?ps i)"
    by (cases "i = 0") (simp_all add: player_at_def UpdatePlayer_keeps)
  then have "alive (player_at ?ps i) \<or> hp (player_at ?ps i) = 0"
    by simp
  then have "alive (player_at (players (collision_stage m s i0 i1)) i)
      \<or> hp (player_at (players (collision_stage m s i0 i1)) i) = 0"
    unfolding players_collision_stage by (rule collide_all_dead_hp)
  with assms(3) show ?thesis
    by simp
qed

lemma dead_stays_dead:
  assumes "i < 2" and "\<not> alive (player_at (players s) i)"
  shows "\<not> alive (player_at (players (collision_stage m s i0 i1)) i)"
proof -
  let ?ps = "(snd (UpdatePlayer m GameSimulation_default (player_at (players s) 0) i0 0),
              snd (UpdatePlayer m GameSimulation_default (player_at (players s) 1) i1 1))"
  from assms have d: "\<not> alive (player_at ?ps i)"
    by (cases "i = 0") (simp_all add: player_at_def UpdatePlayer_keeps)
  then have "player_at (players (collision_stage m s i0 i1)) i = player_at ?ps i"
    unfolding players_collision_stage by (rule collide_all_dead)
  with d show ?thesis
    by simp
qed

section \<open>One dead player: a round win for each call\<close>

lemma one_dead_other_wins:
  assumes "alive (player_at (players (collision_stage m s i0 i1)) 0)"
    and "\<not> alive (player_at (players (collision_stage m s i0 i1)) 1)"
  shows "players (snd (Update m this s i0 i1)) =
     set_player (players (collision_stage m s i0 i1)) 0
       ((player_at (players (collision_stage m s i0 i1)) 0)
          \<lparr>roundWins := roundWins (player_at (players (collision_stage m s i0 i1)) 0) + 1\<rparr>)"
  using assms by (simp add: Update_snd CheckWinConditions_players)

text \<open>
  C5, amended. Whenever player 0 is alive and player 1 is dead once the collisions of a
  call of \<^verbatim>\<open>Update\<close> are done, that call adds exactly 1 (modulo 256) to player 0's
  \<^verbatim>\<open>roundWins\<close> and leaves player 1's as it was. On the tick where player 1 dies (alive
  before the call) it comes out dead with 0 hit points. On every later call, player 1
  being dead already, the same holds again: the counter goes up once for each call of
  \<^verbatim>\<open>Update\<close>, not once for each round.
\<close>

theorem round_win_each_update:
  "(alive (player_at (players (collision_stage m s i0 i1)) 0)
      \<and> \<not> alive (player_at (players (collision_stage m s i0 i1)) 1)
    \<longrightarrow>
      roundWins (player_at (players (snd (Update m this s i0 i1))) 0)
        = roundWins (player_at (players s) 0) + 1
      \<and> roundWins (player_at (players (snd (Update m this s i0 i1))) 1)
        = roundWins (player_at (players s) 1)
      \<and> \<not> alive (player_at (players (snd (Update m this s i0 i1))) 1)
      \<and> (alive (player_at (players s) 1)
           \<longrightarrow> hp (player_at (players (snd (Update m this s i0 i1))) 1) = 0))
   \<and> (\<not> alive (player_at (players s) 1)
      \<and> alive (player_at (players (collision_stage m s i0 i1)) 0)
    \<longrightarrow>
      roundWins (player_at (players (snd (Update m this s i0 i1))) 0)
        = roundWins (player_at (players s) 0) + 1)"
proof -
  let ?c = "collision_stage m s i0 i1"
  let ?u = "snd (Update m this s i0 i1)"
  have main: "roundWins (player_at (players ?u) 0) = roundWins (player_at (players s) 0) + 1
      \<and> roundWins (player_at (players ?u) 1) = roundWins (player_at (players s) 1)
      \<and> \<not> alive (player_at (players ?u) 1)
      \<and> (alive (player_at (players s) 1) \<longrightarrow> hp (player_at (players ?u) 1) = 0)"
    if a: "alive (player_at (players ?c) 0)" and d: "\<not> alive (player_at (players ?c) 1)"
  proof -
    have u: "players ?u = set_player (players ?c) 0
        ((player_at (players ?c) 0)\<lparr>roundWins := roundWins (player_at (players ?c) 0) + 1\<rparr>)"
      using a d by (rule one_dead_other_wins)
    have u0: "roundWins (player_at (players ?u) 0) = roundWins (player_at (players ?c) 0) + 1"
      by (simp add: u player_at_def set_player_def)
    have u1: "player_at (players ?u) 1 = player_at (players ?c) 1"
      by (simp add: u player_at_def set_player_def)
    have h: "hp (player_at (players ?c) 1) = 0" if "alive (player_at (players s) 1)"
      using _ that d by (rule alive_collision_stage_hp) simp
    from u0 u1 d h show ?thesis
      by (simp add: roundWins_collision_stage)
  qed
  have later: "\<not> alive (player_at (players ?c) 1)" if "\<not> alive (player_at (players s) 1)"
    using _ that by (rule dead_stays_dead) simp
  from main later show ?thesis
    by blast
qed


lemma CheckWinConditions_projectiles:
  "projectiles (snd (CheckWinConditions this s)) = projectiles s"
  by (simp add: CheckWinConditions_def Let_def)

text \<open>The tick of \<open>last_hit\<close>: player 1 dies, player 0 has its first round win.\<close>

lemma last_hit_tick:
  "players (snd (Update platform this last_hit InputState_default InputState_default))
     = ((player_at (players low_hp) 0)\<lparr>roundWins := 1\<rparr>,
        (player_at (players low_hp) 1)\<lparr>hp := 0, alive := False\<rparr>)"
  "projectiles (snd (Update platform this last_hit InputState_default InputState_default))
     = [(shot_at 0 \<lparr> vec_x = 0x40A00000, vec_y = 0, vec_z = 0 \<rparr>)\<lparr>active := False\<rparr>]"
proof -
  show "players (snd (Update platform this last_hit InputState_default InputState_default))
     = ((player_at (players low_hp) 0)\<lparr>roundWins := 1\<rparr>,
        (player_at (players low_hp) 1)\<lparr>hp := 0, alive := False\<rparr>)"
    unfolding Update_snd CheckWinConditions_players last_hit_collisions
    by (simp add: player_at_def set_player_def)
       (simp add: low_hp_def match_start_def ResetMatch_def ResetRound_def ResetRound_player_def
         Let_def player_at_def)
  show "projectiles (snd (Update platform this last_hit InputState_default InputState_default))
     = [(shot_at 0 \<lparr> vec_x = 0x40A00000, vec_y = 0, vec_z = 0 \<rparr>)\<lparr>active := False\<rparr>]"
    unfolding Update_snd CheckWinConditions_projectiles last_hit_collisions ..
qed

text \<open>
  The next tick, from any state with these players and no active projectile: nothing
  moves and nothing collides.
\<close>

lemma tick_after_death:
  assumes "players s = ((player_at (players low_hp) 0)\<lparr>roundWins := w\<rparr>,
                        (player_at (players low_hp) 1)\<lparr>hp := 0, alive := False\<rparr>)"
    and "filter active (projectiles s) = []"
  shows "players (collision_stage platform s InputState_default InputState_default) = players s"
proof -
  define P0 where "P0 = (player_at (players low_hp) 0)\<lparr>roundWins := w\<rparr>"
  define P1 where "P1 = (player_at (players low_hp) 1)\<lparr>hp := 0, alive := False\<rparr>"
  have s: "players s = (P0, P1)"
    by (simp add: assms(1) P0_def P1_def)
  have p0: "snd (UpdatePlayer platform GameSimulation_default P0 InputState_default 0) = P0"
    unfolding P0_def low_hp_players
    by (rule UpdatePlayer_idle) (simp_all add: idle_input float_facts)
  have p1: "snd (UpdatePlayer platform GameSimulation_default P1 InputState_default 1) = P1"
    by (rule UpdatePlayer_dead) (simp add: P1_def)
  have inactive: "filter active (map move_projectile ps) = []" if "filter active ps = []" for ps
    using that by (induction ps) (auto simp add: move_projectile_def split: if_splits)
  show ?thesis
    unfolding players_collision_stage s
    by (simp add: player_at_def p0 p1 inactive [OF assms(2)] del: One_nat_def)
qed

text \<open>
  C5, as the claim states it, fails: called again on the state the tick of \<open>last_hit\<close>
  returned, with no round reset in between, \<^verbatim>\<open>Update\<close> takes player 0's \<^verbatim>\<open>roundWins\<close> from
  1 to 2.
\<close>

theorem second_update_awards_again:
  "roundWins (player_at (players (snd (run_Update platform GameSimulation_default last_hit
      [(InputState_default, InputState_default)]))) 0) = 1
   \<and> roundWins (player_at (players (snd (run_Update platform GameSimulation_default last_hit
      [(InputState_default, InputState_default), (InputState_default, InputState_default)]))) 0) = 2"
proof -
  let ?I = InputState_default
  let ?s1 = "snd (Update platform GameSimulation_default last_hit ?I ?I)"
  have c: "players (collision_stage platform ?s1 ?I ?I) = players ?s1"
    by (rule tick_after_death [where w = 1]) (simp_all add: last_hit_tick)
  have a: "alive (player_at (players (collision_stage platform ?s1 ?I ?I)) 0)"
    and d: "\<not> alive (player_at (players (collision_stage platform ?s1 ?I ?I)) 1)"
    unfolding c last_hit_tick low_hp_players by (simp_all add: player_at_def)
  have two: "roundWins (player_at (players (snd (Update platform GameSimulation_default ?s1 ?I ?I))) 0) = 2"
    unfolding one_dead_other_wins [OF a d] c last_hit_tick
    by (simp add: player_at_def set_player_def)
  have one: "roundWins (player_at (players ?s1) 0) = 1"
    unfolding last_hit_tick by (simp add: player_at_def)
  have r1: "snd (run_Update platform GameSimulation_default last_hit [(?I, ?I)]) = ?s1"
    by (simp add: Update_eq)
  have r2: "snd (run_Update platform GameSimulation_default last_hit [(?I, ?I), (?I, ?I)])
      = snd (Update platform GameSimulation_default ?s1 ?I ?I)"
    by (simp add: Update_eq)
  show ?thesis
    unfolding r1 r2 using one two by simp
qed

theorem round_win_each_update_witness:
  "alive (player_at (players (collision_stage platform last_hit InputState_default InputState_default)) 0)
   \<and> \<not> alive (player_at (players (collision_stage platform last_hit InputState_default InputState_default)) 1)
   \<and> alive (player_at (players last_hit) 1)
   \<and> roundWins (player_at (players (snd (Update platform GameSimulation_default last_hit
         InputState_default InputState_default))) 0)
       = roundWins (player_at (players last_hit) 0) + 1
   \<and> hp (player_at (players (snd (Update platform GameSimulation_default last_hit
         InputState_default InputState_default))) 1) = 0"
proof -
  let ?I = InputState_default
  have a: "alive (player_at (players (collision_stage platform last_hit ?I ?I)) 0)"
    and d: "\<not> alive (player_at (players (collision_stage platform last_hit ?I ?I)) 1)"
    and b: "alive (player_at (players last_hit) 1)"
    unfolding last_hit_collisions low_hp_projectiles low_hp_players
    by (simp_all add: player_at_def)
  from a d b round_win_each_update [of platform last_hit ?I ?I GameSimulation_default]
  show ?thesis
    by blast
qed

section \<open>Slot assignment\<close>

lemma peers_cases:
  obtains "fst (peers srv) = None" "snd (peers srv) = None"
  | q1 where "fst (peers srv) = None" "snd (peers srv) = Some q1"
  | q0 where "fst (peers srv) = Some q0" "snd (peers srv) = None"
  | q0 q1 where "fst (peers srv) = Some q0" "snd (peers srv) = Some q1"
  by (cases "fst (peers srv)"; cases "snd (peers srv)") auto

lemmas connect_defs = on_connect_def reap_slot_def find_slot_def occupied_def reaped_def
  peer_at_def set_peer_def Let_def

text \<open>
  C9: after the clean-up, the connection gets slot 0 when slot 0 is not occupied, else
  slot 1 when slot 1 is not occupied, and its client is sent \<^verbatim>\<open>PLAYER_JOINED\<close> with that
  slot; \<^verbatim>\<open>GAME_START\<close> is sent to both peers exactly when a slot was assigned and both
  slots hold a peer then; with both slots occupied the slots stay as they are and the
  connection is disconnected. A reaped slot loses its buffered input, the other queues
  are kept. No more than 2 slots are ever occupied.
\<close>

theorem connect_slot_assignment:
  "(\<not> occupied disc srv 0 \<longrightarrow>
      peers (fst (on_connect disc srv p))
        = (Some p, if occupied disc srv 1 then snd (peers srv) else None)
      \<and> snd (on_connect disc srv p)
        = [enet_peer_send p [PLAYER_JOINED, 0]]
          @ (if OnPlayerJoined srv then [call_OnPlayerJoined 0] else [])
          @ (if occupied disc srv 1
             then [enet_peer_send p [GAME_START], enet_peer_send (the (snd (peers srv))) [GAME_START]]
                  @ (if OnGameStart srv then [call_OnGameStart] else [])
             else []))
   \<and> (occupied disc srv 0 \<and> \<not> occupied disc srv 1 \<longrightarrow>
      peers (fst (on_connect disc srv p)) = (fst (peers srv), Some p)
      \<and> snd (on_connect disc srv p)
        = [enet_peer_send p [PLAYER_JOINED, 1]]
          @ (if OnPlayerJoined srv then [call_OnPlayerJoined 1] else [])
          @ [enet_peer_send (the (fst (peers srv))) [GAME_START], enet_peer_send p [GAME_START]]
          @ (if OnGameStart srv then [call_OnGameStart] else []))
   \<and> (occupied disc srv 0 \<and> occupied disc srv 1 \<longrightarrow>
      peers (fst (on_connect disc srv p)) = peers srv
      \<and> snd (on_connect disc srv p) = [enet_peer_disconnect p])
   \<and> pendingInputs (fst (on_connect disc srv p))
        = (if reaped disc srv 0 then [] else fst (pendingInputs srv),
           if reaped disc srv 1 then [] else snd (pendingInputs srv))
   \<and> occupied_count (fst (on_connect disc srv p)) \<le> 2"
proof (cases rule: peers_cases [of srv])
  case 1
  then show ?thesis
    by (simp add: connect_defs occupied_count_def)
next
  case (2 q1)
  then show ?thesis
    by (simp add: connect_defs occupied_count_def)
next
  case (3 q0)
  then show ?thesis
    by (simp add: connect_defs occupied_count_def)
next
  case (4 q0 q1)
  then show ?thesis
    by (simp add: connect_defs occupied_count_def)
qed

theorem connect_slot_assignment_witness:
  "occupied (\<lambda>q. False) one_client 0 \<and> \<not> occupied (\<lambda>q. False) one_client 1
   \<and> peers (fst (on_connect (\<lambda>q. False) one_client 8)) = (Some 7, Some 8)
   \<and> snd (on_connect (\<lambda>q. False) one_client 8)
       = [enet_peer_send 8 [PLAYER_JOINED, 1], call_OnPlayerJoined 1,
          enet_peer_send 7 [GAME_START], enet_peer_send 8 [GAME_START], call_OnGameStart]
   \<and> \<not> occupied (\<lambda>q. q = 7) one_client 0
   \<and> peers (fst (on_connect (\<lambda>q. q = 7) one_client 9)) = (Some 9, None)
   \<and> pendingInputs (fst (on_connect (\<lambda>q. q = 7) one_client 9)) = ([], [])"
proof -
  have a: "occupied (\<lambda>q. False) one_client 0 \<and> \<not> occupied (\<lambda>q. False) one_client 1"
    and b: "\<not> occupied (\<lambda>q. q = 7) one_client 0 \<and> \<not> occupied (\<lambda>q. q = 7) one_client 1"
    and r: "reaped (\<lambda>q. q = 7) one_client 0 \<and> \<not> reaped (\<lambda>q. q = 7) one_client 1"
    and v: "peers one_client = (Some 7, None)" "pendingInputs one_client = ([InputState_default], [])"
      "OnPlayerJoined one_client" "OnGameStart one_client"
    by (simp_all add: occupied_def reaped_def one_client_def peer_at_def)
  from a b r connect_slot_assignment [of "\<lambda>q. False" one_client 8]
    connect_slot_assignment [of "\<lambda>q. q = 7" one_client 9]
  show ?thesis
    by (simp add: v)
qed

section \<open>Hit points through a step\<close>

text \<open>
  \<open>hp_below h p\<close>: the record \<open>p\<close> satisfies the invariant and has no more hit points
  than \<open>h\<close>.
\<close>

lemma f_le_trans: "f_le a b \<Longrightarrow> f_le b c \<Longrightarrow> f_le a c"
  by (auto simp add: f_le_def)

lemma hit_keeps_invariant:
  assumes "damage_ok proj" and "hp_inv p" and "alive p" and "f_le (hp p) h"
  shows "hp_inv (if f_le (f_sub (hp p) (damage proj)) 0
                 then p\<lparr>hp := f_sub (hp p) (damage proj)\<rparr>\<lparr>hp := 0, alive := False\<rparr>
                 else p\<lparr>hp := f_sub (hp p) (damage proj)\<rparr>)"
    and "f_le (hp (if f_le (f_sub (hp p) (damage proj)) 0
                 then p\<lparr>hp := f_sub (hp p) (damage proj)\<rparr>\<lparr>hp := 0, alive := False\<rparr>
                 else p\<lparr>hp := f_sub (hp p) (damage proj)\<rparr>)) h"
proof -
  let ?r = "f_sub (hp p) (damage proj)"
  from assms(2) have h0: "f_ge (hp p) 0"
    by (simp add: hp_inv_def)
  from assms(1) have d: "f_ge (damage proj) 0" "\<not> is_inf (damage proj)"
    by (simp_all add: damage_ok_def)
  have rn: "\<not> is_nan ?r" and rv: "f_val ?r \<le> f_val (hp p)"
    using f_sub_damage [OF h0 d] by simp_all
  from assms(4) have hn: "\<not> is_nan (hp p)" "\<not> is_nan h" "f_val (hp p) \<le> f_val h"
    by (simp_all add: f_le_def)
  from h0 have hpos: "0 \<le> f_val (hp p)"
    by (simp add: f_ge_def f_le_def f_val_zero)
  show "hp_inv (if f_le ?r 0 then p\<lparr>hp := ?r\<rparr>\<lparr>hp := 0, alive := False\<rparr> else p\<lparr>hp := ?r\<rparr>)"
    using rn assms(3)
    by (auto simp add: hp_inv_def f_ge_def f_le_def f_gt_def f_lt_def f_val_zero)
  show "f_le (hp (if f_le ?r 0 then p\<lparr>hp := ?r\<rparr>\<lparr>hp := 0, alive := False\<rparr> else p\<lparr>hp := ?r\<rparr>)) h"
    using rn rv hn hpos
    by (auto simp add: f_le_def f_val_zero)
qed

lemma collide_with_damage: "damage (fst (snd (collide_with m ps proj i))) = damage proj"
  by (simp add: collide_with_def Let_def)

lemma collide_with_hp:
  assumes "damage_ok proj" and "hp_inv (player_at ps j)" and "f_le (hp (player_at ps j)) h"
    and "i < 2" and "j < 2"
  shows "hp_inv (player_at (fst (collide_with m ps proj i)) j)
       \<and> f_le (hp (player_at (fst (collide_with m ps proj i)) j)) h"
proof (cases "unat (ownerID proj) \<noteq> i \<and> alive (player_at ps i)
    \<and> f_lt (glm_length m (vec3_sub (ProjectileState.position proj)
          (PlayerState.position (player_at ps i)))) (f_add PROJECTILE_RADIUS PLAYER_RADIUS)
    \<and> i = j")
  case False
  with assms(4,5) have "player_at (fst (collide_with m ps proj i)) j = player_at ps j"
    by (auto simp add: collide_with_def Let_def player_at_def set_player_def)
  with assms show ?thesis
    by simp
next
  case True
  then have c: "unat (ownerID proj) \<noteq> i" "alive (player_at ps i)"
    "f_lt (glm_length m (vec3_sub (ProjectileState.position proj)
          (PlayerState.position (player_at ps i)))) (f_add PROJECTILE_RADIUS PLAYER_RADIUS)"
    and ij: "i = j"
    by blast+
  have "fst (collide_with m ps proj i) = set_player ps i
      (if f_le (f_sub (hp (player_at ps i)) (damage proj)) 0
       then (player_at ps i)\<lparr>hp := f_sub (hp (player_at ps i)) (damage proj)\<rparr>\<lparr>hp := 0, alive := False\<rparr>
       else (player_at ps i)\<lparr>hp := f_sub (hp (player_at ps i)) (damage proj)\<rparr>)"
    by (simp add: collide_with_def Let_def c)
  then have hit: "player_at (fst (collide_with m ps proj i)) j =
      (if f_le (f_sub (hp (player_at ps j)) (damage proj)) 0
       then (player_at ps j)\<lparr>hp := f_sub (hp (player_at ps j)) (damage proj)\<rparr>\<lparr>hp := 0, alive := False\<rparr>
       else (player_at ps j)\<lparr>hp := f_sub (hp (player_at ps j)) (damage proj)\<rparr>)"
    by (simp only: ij player_at_set_player)
  from c(2) ij have "alive (player_at ps j)"
    by simp
  with assms(1,2,3) show ?thesis
    unfolding hit by (simp add: hit_keeps_invariant)
qed

lemma collide_projectile_hp:
  assumes "active proj \<longrightarrow> damage_ok proj"
    and "hp_inv (player_at ps j)" and "f_le (hp (player_at ps j)) h" and "j < 2"
  shows "hp_inv (player_at (fst (collide_projectile m ps proj)) j)
       \<and> f_le (hp (player_at (fst (collide_projectile m ps proj)) j)) h"
proof (cases "active proj")
  case False
  with assms show ?thesis
    by (simp add: collide_projectile_def)
next
  case True
  with assms(1) have ok: "damage_ok proj"
    by simp
  have one: "hp_inv (player_at (fst (collide_with m ps proj 0)) j)
      \<and> f_le (hp (player_at (fst (collide_with m ps proj 0)) j)) h"
    using ok assms(2,3) by (rule collide_with_hp) (simp_all add: assms(4))
  have ok': "damage_ok (fst (snd (collide_with m ps proj 0)))"
    using ok by (simp add: damage_ok_def collide_with_damage)
  have two: "hp_inv (player_at (fst (collide_with m (fst (collide_with m ps proj 0))
        (fst (snd (collide_with m ps proj 0))) 1)) j)
      \<and> f_le (hp (player_at (fst (collide_with m (fst (collide_with m ps proj 0))
        (fst (snd (collide_with m ps proj 0))) 1)) j)) h"
    using ok' conjunct1 [OF one] conjunct2 [OF one] by (rule collide_with_hp) (simp_all add: assms(4))
  from True one two show ?thesis
    by (simp add: collide_projectile_def split_def Let_def)
qed

lemma collide_all_hp:
  assumes "\<forall>proj \<in> set projs. active proj \<longrightarrow> damage_ok proj"
    and "hp_inv (player_at ps j)" and "f_le (hp (player_at ps j)) h" and "j < 2"
  shows "hp_inv (player_at (fst (collide_all m ps projs)) j)
       \<and> f_le (hp (player_at (fst (collide_all m ps projs)) j)) h"
  using assms
proof (induction projs arbitrary: ps)
  case Nil
  then show ?case by simp
next
  case (Cons proj rest)
  from Cons.prems have "active proj \<longrightarrow> damage_ok proj"
    by simp
  then have "hp_inv (player_at (fst (collide_projectile m ps proj)) j)
      \<and> f_le (hp (player_at (fst (collide_projectile m ps proj)) j)) h"
    using Cons.prems(2,3,4) by (rule collide_projectile_hp)
  moreover from Cons.prems have "\<forall>proj \<in> set rest. active proj \<longrightarrow> damage_ok proj"
    by simp
  ultimately show ?case
    unfolding fst_collide_all_Cons using Cons.IH Cons.prems(4) by blast
qed

lemma move_projectile_keeps:
  "damage (move_projectile proj) = damage proj"
  "active (move_projectile proj) \<Longrightarrow> active proj"
  by (auto simp add: move_projectile_def Let_def split: if_splits)

lemma moved_damage_ok:
  assumes "\<forall>proj \<in> set projs. active proj \<longrightarrow> damage_ok proj"
  shows "\<forall>proj \<in> set (filter active (map move_projectile projs)). active proj \<longrightarrow> damage_ok proj"
proof
  fix q
  assume "q \<in> set (filter active (map move_projectile projs))"
  then obtain proj where p: "proj \<in> set projs" "q = move_projectile proj" "active q"
    by auto
  then have "active proj"
    by (simp add: move_projectile_keeps)
  with assms p(1) have "damage_ok proj"
    by simp
  then show "active q \<longrightarrow> damage_ok q"
    by (simp add: damage_ok_def p(2) move_projectile_keeps)
qed


lemma hp_inv_cong: "hp p = hp q \<Longrightarrow> alive p = alive q \<Longrightarrow> hp_inv p = hp_inv q"
  by (simp add: hp_inv_def)

lemma CheckWinConditions_hp:
  "hp (player_at (players (snd (CheckWinConditions this s))) j) = hp (player_at (players s) j)"
  "alive (player_at (players (snd (CheckWinConditions this s))) j) = alive (player_at (players s) j)"
proof -
  have "f ((player_at (players (snd (CheckWinConditions this s))) j)\<lparr>roundWins := 0\<rparr>)
      = f ((player_at (players s) j)\<lparr>roundWins := 0\<rparr>)" for f :: "PlayerState \<Rightarrow> 'a"
    by (simp only: CheckWinConditions_same)
  from this [of hp] this [of alive]
  show "hp (player_at (players (snd (CheckWinConditions this s))) j) = hp (player_at (players s) j)"
    and "alive (player_at (players (snd (CheckWinConditions this s))) j)
      = alive (player_at (players s) j)"
    by simp_all
qed

text \<open>
  C4, amended: for a state all of whose active projectiles have a finite damage that is
  not negative, a player that satisfies \<open>hp \<ge> 0\<close> and \<open>alive = (hp > 0)\<close> before
  \<^verbatim>\<open>Update\<close> satisfies both after it, with hit points no greater than before.
\<close>

theorem hp_invariant_step:
  assumes "i < 2" and "hp_inv (player_at (players s) i)"
    and "\<forall>proj \<in> set (projectiles s). active proj \<longrightarrow> damage_ok proj"
  shows "hp_inv (player_at (players (snd (Update m this s i0 i1))) i)
       \<and> f_le (hp (player_at (players (snd (Update m this s i0 i1))) i))
              (hp (player_at (players s) i))"
proof -
  let ?p = "player_at (players s) i"
  let ?ps = "(snd (UpdatePlayer m GameSimulation_default (player_at (players s) 0) i0 0),
              snd (UpdatePlayer m GameSimulation_default (player_at (players s) 1) i1 1))"
  let ?projs = "filter active (map move_projectile (projectiles s))"
  let ?c = "collision_stage m s i0 i1"
  have same: "hp (player_at ?ps i) = hp ?p" "alive (player_at ?ps i) = alive ?p"
    by (cases "i = 0"; simp add: player_at_def UpdatePlayer_keeps)+
  then have inv: "hp_inv (player_at ?ps i)"
    using assms(2) hp_inv_cong by blast
  from assms(2) have "f_le (hp ?p) (hp ?p)"
    by (simp add: hp_inv_def f_ge_def f_le_def)
  then have le: "f_le (hp (player_at ?ps i)) (hp ?p)"
    by (simp only: same)
  have "hp_inv (player_at (fst (collide_all m ?ps ?projs)) i)
      \<and> f_le (hp (player_at (fst (collide_all m ?ps ?projs)) i)) (hp ?p)"
    using moved_damage_ok [OF assms(3)] inv le assms(1) by (rule collide_all_hp)
  then have c: "hp_inv (player_at (players ?c) i) \<and> f_le (hp (player_at (players ?c) i)) (hp ?p)"
    by (simp only: players_collision_stage)
  have "hp_inv (player_at (players (snd (Update m this s i0 i1))) i) = hp_inv (player_at (players ?c) i)"
    unfolding Update_snd by (rule hp_inv_cong) (simp_all only: CheckWinConditions_hp)
  with c show ?thesis
    by (simp add: Update_snd CheckWinConditions_hp)
qed

lemma float_facts_hp:
  "f_ge 0x41200000 0"
  "f_gt 0x41200000 0"
  "\<not> is_inf 0x41200000"
  "f_sub 0x41200000 0xC1200000 = 0x41A00000"
  "\<not> f_le 0x41A00000 0"
  "\<not> f_le 0x41A00000 0x41200000"
  by (simp_all add: f_eval)

lemma low_hp_invariant:
  "hp_inv (player_at (players low_hp) 0)" "hp_inv (player_at (players low_hp) 1)"
  unfolding low_hp_players by (simp_all add: hp_inv_def float_facts_hp)

lemma healing_shot_collisions:
  "players (collision_stage platform healing_shot InputState_default InputState_default)
     = (player_at (players low_hp) 0, (player_at (players low_hp) 1)\<lparr>hp := 0x41A00000\<rparr>)"
proof -
  let ?p0 = "player_at (players low_hp) 0" and ?p1 = "player_at (players low_hp) 1"
  let ?shot = "(shot_at 0 \<lparr> vec_x = 0x40A00000, vec_y = 0, vec_z = 0 \<rparr>)\<lparr>damage := 0xC1200000\<rparr>"
  have pr: "projectiles healing_shot = [?shot]" and pl: "players healing_shot = players low_hp"
    unfolding healing_shot_def low_hp_players by simp_all
  have mv: "move_projectile ?shot = ?shot"
    by (simp add: move_projectile_def shot_at_def ProjectileState_default_def Let_def
        vec3_add_def vec3_scale_def vec3_zero_def float_facts)
  have act: "active ?shot"
    by (simp add: shot_active)
  have a: "collide_projectile platform (?p0, ?p1) ?shot
      = ((?p0, ?p1\<lparr>hp := 0x41A00000\<rparr>), ?shot\<lparr>active := False\<rparr>)"
    unfolding low_hp_players
    by (simp add: collide_projectile_def collide_with_def Let_def shot_at_def
        ProjectileState_default_def player_at_def set_player_def vec3_sub_def
        platform_length_zero float_facts float_facts_hp)
  show ?thesis
    unfolding players_collision_stage pr pl low_hp_idle
    by (simp add: mv act a del: One_nat_def)
qed

text \<open>
  C4, as the claim states it, fails: in \<open>healing_shot\<close> both players satisfy the
  invariant, and the projectile of damage \<^verbatim>\<open>-10.0f\<close> that hits player 1 takes its hit
  points from \<^verbatim>\<open>10.0f\<close> to \<^verbatim>\<open>20.0f\<close>.
\<close>

theorem healing_shot_raises_hp:
  "hp_inv (player_at (players healing_shot) 0)
   \<and> hp_inv (player_at (players healing_shot) 1)
   \<and> \<not> f_le (hp (player_at (players (snd (Update platform GameSimulation_default healing_shot
            InputState_default InputState_default))) 1))
          (hp (player_at (players healing_shot) 1))"
proof -
  have pl: "players healing_shot = players low_hp"
    unfolding healing_shot_def by simp
  have "hp (player_at (players (snd (Update platform GameSimulation_default healing_shot
      InputState_default InputState_default))) 1) = 0x41A00000"
    unfolding Update_snd CheckWinConditions_hp healing_shot_collisions
    by (simp add: player_at_def)
  moreover have "hp (player_at (players low_hp) 1) = 0x41200000"
    unfolding low_hp_players by simp
  ultimately show ?thesis
    by (simp only: pl low_hp_invariant float_facts_hp simp_thms)
qed

theorem hp_invariant_step_witness:
  "(1::nat) < 2 \<and> hp_inv (player_at (players last_hit) 1)
   \<and> projectiles last_hit = [shot_at 0 \<lparr> vec_x = 0x40A00000, vec_y = 0, vec_z = 0 \<rparr>]
   \<and> damage_ok (shot_at 0 \<lparr> vec_x = 0x40A00000, vec_y = 0, vec_z = 0 \<rparr>)
   \<and> hp_inv (player_at (players (snd (Update platform GameSimulation_default last_hit
         InputState_default InputState_default))) 1)
   \<and> f_le (hp (player_at (players (snd (Update platform GameSimulation_default last_hit
         InputState_default InputState_default))) 1))
          (hp (player_at (players last_hit) 1))"
proof -
  have i: "(1::nat) < 2"
    by simp
  have inv: "hp_inv (player_at (players last_hit) 1)"
    unfolding low_hp_projectiles by (rule low_hp_invariant)
  have ok: "damage_ok (shot_at 0 \<lparr> vec_x = 0x40A00000, vec_y = 0, vec_z = 0 \<rparr>)"
    by (simp add: shot_at_def ProjectileState_default_def damage_ok_def PROJECTILE_DAMAGE_def
        float_facts_hp)
  then have ok': "\<forall>proj \<in> set (projectiles last_hit). active proj \<longrightarrow> damage_ok proj"
    unfolding low_hp_projectiles by simp
  from i inv ok low_hp_projectiles(1) hp_invariant_step [OF i inv ok', of platform GameSimulation_default
      InputState_default InputState_default]
  show ?thesis
    by blast
qed

end
